theory Spec2Isabelle
  imports Complex_Main
begin

section \<open>Data model of \<open>models.py\<close>\<close>

text \<open>
  The orchestrating classes of \<open>models.py\<close> (\<open>HMM\<close> and its subclasses) are embedded
  as functions on a record of the instance attributes. A method that mutates \<open>self\<close>
  takes the model and returns the model as it stands when the call ends, together
  with the outcome of the call: a returned value or the exception raised. An
  exception therefore keeps every mutation made before it, as in Python.

  The posterior objects (observation, transition, initial-state, duration), the
  per-sequence states objects and the \<open>parallel\<close> module are collaborators that
  \<open>models.py\<close> only calls. Their methods are the fields of a record \<open>collab\<close> that
  every embedded method takes as its first argument, so each theorem holds for
  every behaviour of the collaborators.
\<close>

datatype error =
    AssertionError
  | NotImplementedError
  | TypeError
  | ValueError
  | IndexError
  | CollaboratorError
  | NotEmbedded

datatype 'a outcome = Returned 'a | Raised error

text \<open>
  \<open>CollaboratorError\<close> stands for whatever a collaborator raises. \<open>NotEmbedded\<close> is
  not an exception of the program: it marks a numeric computation that leaves what
  the embedding follows (see the section on predictive likelihoods).
\<close>

text \<open>The classes of the module; method resolution follows the class of the instance.\<close>

datatype kind =
    HMM
  | HMMEigen
  | StickyHMM
  | StickyHMMEigen
  | HSMM
  | HSMMEigen
  | HSMMIntNegBinVariant
  | HSMMIntNegBin
  | HSMMPossibleChangepoints

fun is_HSMM :: "kind \<Rightarrow> bool" where
  "is_HSMM HSMM = True"
| "is_HSMM HSMMEigen = True"
| "is_HSMM HSMMIntNegBinVariant = True"
| "is_HSMM HSMMIntNegBin = True"
| "is_HSMM HSMMPossibleChangepoints = True"
| "is_HSMM _ = False"

fun is_StickyHMM :: "kind \<Rightarrow> bool" where
  "is_StickyHMM StickyHMM = True"
| "is_StickyHMM StickyHMMEigen = True"
| "is_StickyHMM _ = False"

fun is_HSMMIntNegBinBase :: "kind \<Rightarrow> bool" where
  "is_HSMMIntNegBinBase HSMMIntNegBinVariant = True"
| "is_HSMMIntNegBinBase HSMMIntNegBin = True"
| "is_HSMMIntNegBinBase _ = False"

text \<open>
  A states object (one per attached sequence). \<open>stateseq\<close> holds the labels as the
  integers they are in the array. The four tables are the cached quantities;
  \<open>None\<close> is a cleared cache.
\<close>

record 'x states =
  data :: "'x list"
  stateseq :: "int list"
  trunc :: "nat option"
  right_censoring :: bool
  left_censoring :: bool
  changepoints :: "(nat \<times> nat) list option"
  aBl :: "real list list option"
  alphal :: "real list list option"
  betal :: "real list list option"
  expectations :: "real list list option"

text \<open>
  The transition posterior of a model: the object the caller supplied, or the one
  the constructor builds from the concentration arguments it was given (each of
  which may be \<open>None\<close> at that point).
\<close>

datatype 't trans_distn =
    Supplied 't
  | WeakLimitTransitions nat "real option" "real option"
  | WeakLimitTransitionsConc nat "real option" "real option" "real option" "real option"
  | StickyTransitions nat "real option" "real option" "real option"
  | StickyTransitionsConcResampling nat "real option" "real option" "real option"
      "real option" "real option" "real option"

text \<open>
  The initial-state posterior. The steady-state form is derived from the transition
  matrix; it has a \<open>clear_caches\<close> method and the cache that method clears. The
  other forms have no such attribute. The one steady-state form stands for both
  steady-state classes, that of \<open>HMM\<close> and that of \<open>HSMM\<close>.
\<close>

datatype 'i init_state_distn =
    SuppliedInit 'i
  | InitialState nat real
  | SteadyState "real list option"

text \<open>
  The attribute \<open>left_censoring_init_state_distn\<close> of an HSMM: either the very
  object that \<open>init_state_distn\<close> holds (so that whatever happens to one happens
  to the other), or a steady-state object of its own, with its own cache.
\<close>

datatype left_censoring =
    SameAsInit
  | OwnSteadyState "real list option"

text \<open>
  The last field of the model, \<open>calls\<close>, is a history variable and not an attribute
  of the class: the resampling calls made on collaborators so far, oldest first
  (the number is the index of the posterior or of the states object).
\<close>

datatype call =
    ResampleObs nat
  | ResampleTrans
  | ResampleInit
  | ResampleDur nat
  | ResampleStates nat

record ('x, 'o, 't, 'i, 'd) model =
  kind :: kind
  num_states :: nat
  obs_distns :: "'o list"
  states_list :: "'x states list"
  trans_distn :: "'t trans_distn"
  init_state_distn :: "'i init_state_distn"
  dur_distns :: "'d list"
  left_censoring_init_state_distn :: "left_censoring option"
  calls :: "call list"

section \<open>Construction\<close>

record ('o, 't, 'i) hmm_args =
  arg_obs_distns :: "'o list"
  arg_trans_distn :: "'t trans_distn option"
  arg_alpha :: "real option"
  arg_gamma :: "real option"
  arg_alpha_a_0 :: "real option"
  arg_alpha_b_0 :: "real option"
  arg_gamma_a_0 :: "real option"
  arg_gamma_b_0 :: "real option"
  arg_init_state_distn :: "'i init_state_distn option"
  arg_init_state_concentration :: "real option"

text \<open>Python's \<open>^\<close> on two booleans.\<close>

definition bxor :: "bool \<Rightarrow> bool \<Rightarrow> bool" where
  "bxor a b = (a \<noteq> b)"

text \<open>The three operands of the assertion of \<open>HMM.__init__\<close>, in its order.\<close>

definition given_trans_distn :: "('o, 't, 'i) hmm_args \<Rightarrow> bool" where
  "given_trans_distn a = (arg_trans_distn a \<noteq> None)"

definition given_alpha_gamma :: "('o, 't, 'i) hmm_args \<Rightarrow> bool" where
  "given_alpha_gamma a = (arg_alpha a \<noteq> None \<and> arg_gamma a \<noteq> None)"

definition given_hyperpriors :: "('o, 't, 'i) hmm_args \<Rightarrow> bool" where
  "given_hyperpriors a =
     (arg_alpha_a_0 a \<noteq> None \<and> arg_alpha_b_0 a \<noteq> None
      \<and> arg_gamma_a_0 a \<noteq> None \<and> arg_gamma_b_0 a \<noteq> None)"

text \<open>
  \<open>HMM.__init__\<close>, for an instance of class \<open>k\<close>. The attributes \<open>dur_distns\<close> and
  \<open>left_censoring_init_state_distn\<close> belong to \<open>HSMM\<close>; here they are empty.
\<close>

definition HMM_init ::
  "kind \<Rightarrow> ('o, 't, 'i) hmm_args \<Rightarrow> error + ('x, 'o, 't, 'i, 'd) model" where
  "HMM_init k a =
     (let n = length (arg_obs_distns a) in
      if \<not> bxor (bxor (given_trans_distn a) (given_alpha_gamma a)) (given_hyperpriors a)
      then Inl AssertionError
      else
        let td =
          (case arg_trans_distn a of
             Some t \<Rightarrow> t
           | None \<Rightarrow>
               if arg_alpha a \<noteq> None
               then WeakLimitTransitions n (arg_alpha a) (arg_gamma a)
               else WeakLimitTransitionsConc n (arg_alpha_a_0 a) (arg_alpha_b_0 a)
                      (arg_gamma_a_0 a) (arg_gamma_b_0 a));
          isd =
          (case arg_init_state_distn a of
             Some d \<Rightarrow> d
           | None \<Rightarrow>
               (case arg_init_state_concentration a of
                  Some rho \<Rightarrow> InitialState n rho
                | None \<Rightarrow> SteadyState None))
        in Inr \<lparr> kind = k, num_states = n, obs_distns = arg_obs_distns a,
                 states_list = [], trans_distn = td, init_state_distn = isd,
                 dur_distns = [], left_censoring_init_state_distn = None,
                 calls = [] \<rparr>)"

text \<open>
  \<open>StickyHMM.__init__\<close>. Its own named parameters take \<open>kappa\<close>, \<open>alpha\<close>, \<open>gamma\<close>
  and the six hyperpriors; what is left for \<open>**kwargs\<close>, and so for
  \<open>HMM.__init__\<close>, is \<open>alpha_a_0\<close>, \<open>alpha_b_0\<close> and the two initial-state
  arguments.
\<close>

record ('o, 't, 'i) sticky_args =
  sarg_obs_distns :: "'o list"
  sarg_trans_distn :: "'t trans_distn option"
  sarg_kappa :: "real option"
  sarg_alpha :: "real option"
  sarg_gamma :: "real option"
  sarg_rho_a_0 :: "real option"
  sarg_rho_b_0 :: "real option"
  sarg_alphakappa_a_0 :: "real option"
  sarg_alphakappa_b_0 :: "real option"
  sarg_gamma_a_0 :: "real option"
  sarg_gamma_b_0 :: "real option"
  skw_alpha_a_0 :: "real option"
  skw_alpha_b_0 :: "real option"
  skw_init_state_distn :: "'i init_state_distn option"
  skw_init_state_concentration :: "real option"

definition sticky_given_trans_distn :: "('o, 't, 'i) sticky_args \<Rightarrow> bool" where
  "sticky_given_trans_distn a = (sarg_trans_distn a \<noteq> None)"

definition sticky_given_fixed :: "('o, 't, 'i) sticky_args \<Rightarrow> bool" where
  "sticky_given_fixed a =
     (sarg_kappa a \<noteq> None \<and> sarg_alpha a \<noteq> None \<and> sarg_gamma a \<noteq> None)"

definition sticky_given_hyperpriors :: "('o, 't, 'i) sticky_args \<Rightarrow> bool" where
  "sticky_given_hyperpriors a =
     (sarg_rho_a_0 a \<noteq> None \<and> sarg_rho_b_0 a \<noteq> None
      \<and> sarg_alphakappa_a_0 a \<noteq> None \<and> sarg_alphakappa_b_0 a \<noteq> None
      \<and> sarg_gamma_a_0 a \<noteq> None \<and> sarg_gamma_b_0 a \<noteq> None)"

definition StickyHMM_init ::
  "kind \<Rightarrow> ('o, 't, 'i) sticky_args \<Rightarrow> error + ('x, 'o, 't, 'i, 'd) model" where
  "StickyHMM_init k a =
     (if \<not> bxor (bxor (sticky_given_trans_distn a) (sticky_given_fixed a))
               (sticky_given_hyperpriors a)
      then Inl AssertionError
      else
        let n = length (sarg_obs_distns a);
            td =
          (case sarg_trans_distn a of
             Some t \<Rightarrow> t
           | None \<Rightarrow>
               if sarg_kappa a \<noteq> None
               then StickyTransitions n (sarg_alpha a) (sarg_gamma a) (sarg_kappa a)
               else StickyTransitionsConcResampling n (sarg_rho_a_0 a) (sarg_rho_b_0 a)
                      (sarg_alphakappa_a_0 a) (sarg_alphakappa_b_0 a)
                      (sarg_gamma_a_0 a) (sarg_gamma_b_0 a))
        in HMM_init k
             \<lparr> arg_obs_distns = sarg_obs_distns a, arg_trans_distn = Some td,
               arg_alpha = None, arg_gamma = None,
               arg_alpha_a_0 = skw_alpha_a_0 a, arg_alpha_b_0 = skw_alpha_b_0 a,
               arg_gamma_a_0 = None, arg_gamma_b_0 = None,
               arg_init_state_distn = skw_init_state_distn a,
               arg_init_state_concentration = skw_init_state_concentration a \<rparr>)"

text \<open>
  \<open>HSMM.__init__\<close>: the duration posteriors are stored, \<open>HMM.__init__\<close> runs on the
  remaining arguments, and the left-censoring initial distribution is the
  steady-state one: the object in \<open>init_state_distn\<close> itself when that is a
  steady-state object, a new steady-state object otherwise.
\<close>

definition HSMM_init ::
  "kind \<Rightarrow> 'd list \<Rightarrow> ('o, 't, 'i) hmm_args \<Rightarrow> error + ('x, 'o, 't, 'i, 'd) model" where
  "HSMM_init k durs a =
     (case HMM_init k a of
        Inl e \<Rightarrow> Inl e
      | Inr m \<Rightarrow>
          Inr (m \<lparr> dur_distns := durs,
                   left_censoring_init_state_distn :=
                     (case init_state_distn m of
                        SteadyState c \<Rightarrow> Some SameAsInit
                      | _ \<Rightarrow> Some (OwnSteadyState None)) \<rparr>))"

section \<open>Parameter count\<close>

text \<open>
  The two \<open>num_parameters\<close> properties. The per-posterior counts come from the
  collaborators' \<open>num_parameters()\<close>, passed as \<open>on\<close> and \<open>dn\<close>.
\<close>

definition HMM_num_parameters ::
  "('o \<Rightarrow> int) \<Rightarrow> ('x, 'o, 't, 'i, 'd) model \<Rightarrow> int" where
  "HMM_num_parameters on m =
     sum_list (map on (obs_distns m)) + (int (num_states m))\<^sup>2"

definition HSMM_num_parameters ::
  "('o \<Rightarrow> int) \<Rightarrow> ('d \<Rightarrow> int) \<Rightarrow> ('x, 'o, 't, 'i, 'd) model \<Rightarrow> int" where
  "HSMM_num_parameters on dn m =
     sum_list (map on (obs_distns m)) + sum_list (map dn (dur_distns m))
       + (int (num_states m))\<^sup>2 - int (num_states m)"

definition num_parameters ::
  "('o \<Rightarrow> int) \<Rightarrow> ('d \<Rightarrow> int) \<Rightarrow> ('x, 'o, 't, 'i, 'd) model \<Rightarrow> int" where
  "num_parameters on dn m =
     (if is_HSMM (kind m) then HSMM_num_parameters on dn m else HMM_num_parameters on m)"

section \<open>Collaborators\<close>

text \<open>
  Keyword arguments handed on to the constructor of a states object; \<open>None\<close> is an
  argument that was not passed.
\<close>

record kwargs =
  kw_initialize_from_prior :: "bool option"
  kw_temp :: "real option"
  kw_trunc :: "nat option"
  kw_right_censoring :: "bool option"
  kw_left_censoring :: "bool option"
  kw_changepoints :: "(nat \<times> nat) list option"

definition no_kwargs :: kwargs where
  "no_kwargs =
     \<lparr> kw_initialize_from_prior = None, kw_temp = None, kw_trunc = None,
       kw_right_censoring = None, kw_left_censoring = None, kw_changepoints = None \<rparr>"

text \<open>
  The methods of the collaborators that \<open>models.py\<close> calls. A method that mutates
  its object returns the new value of the object. A states method gets the model
  it belongs to, whose parameters it reads. The constructor of a states object and
  \<open>log_likelihood\<close> may raise. The four accessors of run lengths are properties
  of an HSMM states object. \<open>messages_forwards\<close> is the table of forward log
  messages that the method of that name returns, and \<open>states_trans_matrix\<close> and
  \<open>states_aBl\<close> are what \<open>s.trans_matrix\<close> and \<open>s.aBl\<close> evaluate to after it: the
  transition matrix and the table of observation log-likelihoods, both as lists
  of rows. \<open>np_empty\<close> is \<open>numpy.empty\<close> for \<open>int32\<close>, whose
  contents are whatever the memory held.
\<close>

record ('x, 'o, 't, 'i, 'd) collab =
  obs_resample :: "'o \<Rightarrow> 'x list list \<Rightarrow> 'o"
  obs_max_likelihood :: "'o \<Rightarrow> 'x list list \<Rightarrow> real list list option \<Rightarrow> 'o"
  obs_num_parameters :: "'o \<Rightarrow> int"
  trans_resample :: "'t trans_distn \<Rightarrow> int list list \<Rightarrow> 't trans_distn"
  trans_max_likelihood_messages ::
    "'t trans_distn \<Rightarrow>
       (real list list option \<times> real list list option \<times> real list list option) list \<Rightarrow>
       't trans_distn"
  trans_max_likelihood :: "'t trans_distn \<Rightarrow> int list list \<Rightarrow> 't trans_distn"
  init_resample :: "'i init_state_distn \<Rightarrow> int list list \<Rightarrow> 'i init_state_distn"
  init_max_likelihood_expected ::
    "'i init_state_distn \<Rightarrow> real list list \<Rightarrow> 'i init_state_distn"
  init_max_likelihood :: "'i init_state_distn \<Rightarrow> int list \<Rightarrow> 'i init_state_distn"
  dur_resample_with_truncations :: "'d \<Rightarrow> nat list list \<Rightarrow> nat list list \<Rightarrow> 'd"
  dur_max_likelihood_expected :: "'d \<Rightarrow> real list list \<Rightarrow> 'd"
  dur_max_likelihood :: "'d \<Rightarrow> nat list list \<Rightarrow> 'd"
  dur_num_parameters :: "'d \<Rightarrow> int"
  states_new ::
    "('x, 'o, 't, 'i, 'd) model \<Rightarrow> 'x list \<Rightarrow> int list option \<Rightarrow> kwargs \<Rightarrow>
       'x states outcome"
  states_resample ::
    "('x, 'o, 't, 'i, 'd) model \<Rightarrow> real option \<Rightarrow> 'x states \<Rightarrow> 'x states"
  states_E_step :: "('x, 'o, 't, 'i, 'd) model \<Rightarrow> 'x states \<Rightarrow> 'x states"
  states_Viterbi :: "('x, 'o, 't, 'i, 'd) model \<Rightarrow> 'x states \<Rightarrow> 'x states"
  states_log_likelihood ::
    "('x, 'o, 't, 'i, 'd) model \<Rightarrow> 'x states \<Rightarrow> 'x states \<times> real outcome"
  stateseq_norep :: "'x states \<Rightarrow> int list"
  durations :: "'x states \<Rightarrow> nat list"
  durations_censored :: "'x states \<Rightarrow> nat list"
  untrunc_slice :: "'x states \<Rightarrow> int option \<times> int option"
  trunc_slice :: "'x states \<Rightarrow> int option \<times> int option"
  messages_forwards :: "('x, 'o, 't, 'i, 'd) model \<Rightarrow> 'x states \<Rightarrow> real list list"
  states_trans_matrix :: "('x, 'o, 't, 'i, 'd) model \<Rightarrow> 'x states \<Rightarrow> real list list"
  states_aBl :: "('x, 'o, 't, 'i, 'd) model \<Rightarrow> 'x states \<Rightarrow> real list list"
  np_empty :: "nat \<Rightarrow> int list"

section \<open>Array indexing\<close>

text \<open>
  \<open>xs[lo:hi]\<close> for a Python slice with step 1: a negative bound counts from the
  end, and bounds are clipped to the length.
\<close>

definition slice_bound :: "nat \<Rightarrow> int \<Rightarrow> nat" where
  "slice_bound n i = (if i < 0 then nat (max (int n + i) 0) else min (nat i) n)"

definition py_slice :: "int option \<times> int option \<Rightarrow> 'a list \<Rightarrow> 'a list" where
  "py_slice sl xs =
     (let n = length xs;
          start = (case fst sl of None \<Rightarrow> 0 | Some i \<Rightarrow> slice_bound n i);
          stop = (case snd sl of None \<Rightarrow> n | Some j \<Rightarrow> slice_bound n j)
      in take (stop - start) (drop start xs))"

text \<open>
  \<open>xs[zs == k]\<close>: the entries of \<open>xs\<close> where the label array \<open>zs\<close>, of the same
  length, holds \<open>k\<close>.
\<close>

definition masked :: "'a list \<Rightarrow> int list \<Rightarrow> nat \<Rightarrow> 'a list" where
  "masked xs zs k = map fst (filter (\<lambda>p. snd p = int k) (zip xs zs))"

text \<open>\<open>enumerate\<close>.\<close>

definition enumerate_list :: "'a list \<Rightarrow> (nat \<times> 'a) list" where
  "enumerate_list xs = zip [0..<length xs] xs"

section \<open>Attaching data and scoring\<close>

text \<open>
  \<open>add_data\<close>. \<open>HSMM.add_data\<close> fixes the defaults of \<open>right_censoring\<close> and
  \<open>left_censoring\<close>; \<open>HSMMPossibleChangepoints.add_data\<close> has \<open>changepoints\<close> as
  a required parameter, so a call without it is a \<open>TypeError\<close>. The states object
  is built first and appended after.
\<close>

definition add_data_kwargs :: "kind \<Rightarrow> kwargs \<Rightarrow> kwargs" where
  "add_data_kwargs k kw =
     (if is_HSMM k
      then kw \<lparr> kw_right_censoring :=
                  Some (case kw_right_censoring kw of None \<Rightarrow> True | Some b \<Rightarrow> b),
                kw_left_censoring :=
                  Some (case kw_left_censoring kw of None \<Rightarrow> False | Some b \<Rightarrow> b) \<rparr>
      else kw)"

definition add_data ::
  "('x, 'o, 't, 'i, 'd) collab \<Rightarrow> ('x, 'o, 't, 'i, 'd) model \<Rightarrow> 'x list \<Rightarrow>
     int list option \<Rightarrow> kwargs \<Rightarrow> ('x, 'o, 't, 'i, 'd) model \<times> unit outcome" where
  "add_data C m dat seq kw =
     (if kind m = HSMMPossibleChangepoints \<and> kw_changepoints kw = None
      then (m, Raised TypeError)
      else
        (case states_new C m dat seq (add_data_kwargs (kind m) kw) of
           Raised e \<Rightarrow> (m, Raised e)
         | Returned s \<Rightarrow> (m \<lparr> states_list := states_list m @ [s] \<rparr>, Returned ())))"

text \<open>\<open>list.pop()\<close>: the list without its last element, and that element.\<close>

definition pop :: "'a list \<Rightarrow> ('a list \<times> 'a) outcome" where
  "pop xs = (if xs = [] then Raised IndexError else Returned (butlast xs, last xs))"

text \<open>
  The sum of \<open>s.log_likelihood()\<close> over the states objects, left to right, as the
  generator under \<open>sum\<close> runs: the objects seen so far keep what the call did to
  them, and the first exception ends the loop.
\<close>

fun sum_log_likelihood ::
  "('x, 'o, 't, 'i, 'd) collab \<Rightarrow> ('x, 'o, 't, 'i, 'd) model \<Rightarrow> 'x states list \<Rightarrow>
     'x states list \<times> real outcome" where
  "sum_log_likelihood C m [] = ([], Returned 0)"
| "sum_log_likelihood C m (s # ss) =
     (case states_log_likelihood C m s of
        (s', Raised e) \<Rightarrow> (s' # ss, Raised e)
      | (s', Returned l) \<Rightarrow>
          (case sum_log_likelihood C m ss of
             (ss', Raised e) \<Rightarrow> (s' # ss', Raised e)
           | (ss', Returned r) \<Rightarrow> (s' # ss', Returned (l + r))))"

definition log_likelihood ::
  "('x, 'o, 't, 'i, 'd) collab \<Rightarrow> ('x, 'o, 't, 'i, 'd) model \<Rightarrow> 'x list option \<Rightarrow>
     kwargs \<Rightarrow> ('x, 'o, 't, 'i, 'd) model \<times> real outcome" where
  "log_likelihood C m dat kw =
     (case dat of
        Some d \<Rightarrow>
          (case add_data C m d (Some (np_empty C (length d))) kw of
             (m1, Raised e) \<Rightarrow> (m1, Raised e)
           | (m1, Returned _) \<Rightarrow>
               (case pop (states_list m1) of
                  Raised e \<Rightarrow> (m1, Raised e)
                | Returned (rest, s) \<Rightarrow>
                    (let m2 = m1 \<lparr> states_list := rest \<rparr>
                     in (m2, snd (states_log_likelihood C m2 s)))))
      | None \<Rightarrow>
          (case sum_log_likelihood C m (states_list m) of
             (ss, r) \<Rightarrow> (m \<lparr> states_list := ss \<rparr>, r)))"

section \<open>Caching\<close>

text \<open>
  Modelled from the spec: \<open>clear_caches\<close> of a states object is not in
  \<open>models.py\<close>; it invalidates the cached per-chain quantities, the
  log-likelihood table, the forward and backward message tables and the
  expected-occupancy table.
\<close>

definition states_clear_caches :: "'x states \<Rightarrow> 'x states" where
  "states_clear_caches s =
     s \<lparr> aBl := None, alphal := None, betal := None, expectations := None \<rparr>"

text \<open>
  The second half of \<open>_clear_caches\<close>: the \<open>hasattr\<close> test and the call. Modelled
  from the spec: \<open>clear_caches\<close> of the steady-state initial distribution drops its
  cached stationary distribution.
\<close>

fun init_clear_caches :: "'i init_state_distn \<Rightarrow> 'i init_state_distn" where
  "init_clear_caches (SteadyState c) = SteadyState None"
| "init_clear_caches d = d"

definition clear_caches ::
  "('x, 'o, 't, 'i, 'd) model \<Rightarrow> ('x, 'o, 't, 'i, 'd) model" where
  "clear_caches m =
     m \<lparr> states_list := map states_clear_caches (states_list m),
         init_state_distn := init_clear_caches (init_state_distn m) \<rparr>"

section \<open>Gibbs sampling\<close>

definition resample_obs_distns ::
  "('x, 'o, 't, 'i, 'd) collab \<Rightarrow> real option \<Rightarrow> ('x, 'o, 't, 'i, 'd) model \<Rightarrow>
     ('x, 'o, 't, 'i, 'd) model" where
  "resample_obs_distns C temp m =
     clear_caches
       (m \<lparr> obs_distns :=
              map (\<lambda>(state, distn).
                     obs_resample C distn
                       (map (\<lambda>s. masked (data s) (stateseq s) state) (states_list m)))
                  (enumerate_list (obs_distns m)),
            calls := calls m @ map (\<lambda>(state, distn). ResampleObs state)
                                   (enumerate_list (obs_distns m)) \<rparr>)"

definition resample_trans_distn ::
  "('x, 'o, 't, 'i, 'd) collab \<Rightarrow> real option \<Rightarrow> ('x, 'o, 't, 'i, 'd) model \<Rightarrow>
     ('x, 'o, 't, 'i, 'd) model" where
  "resample_trans_distn C temp m =
     clear_caches
       (m \<lparr> trans_distn := trans_resample C (trans_distn m) (map stateseq (states_list m)),
            calls := calls m @ [ResampleTrans] \<rparr>)"

definition resample_init_state_distn ::
  "('x, 'o, 't, 'i, 'd) collab \<Rightarrow> real option \<Rightarrow> ('x, 'o, 't, 'i, 'd) model \<Rightarrow>
     ('x, 'o, 't, 'i, 'd) model" where
  "resample_init_state_distn C temp m =
     clear_caches
       (m \<lparr> init_state_distn :=
              init_resample C (init_state_distn m)
                (map (\<lambda>s. py_slice (None, Some 1) (stateseq s)) (states_list m)),
            calls := calls m @ [ResampleInit] \<rparr>)"

definition resample_dur_distns ::
  "('x, 'o, 't, 'i, 'd) collab \<Rightarrow> real option \<Rightarrow> ('x, 'o, 't, 'i, 'd) model \<Rightarrow>
     ('x, 'o, 't, 'i, 'd) model" where
  "resample_dur_distns C temp m =
     clear_caches
       (m \<lparr> dur_distns :=
              map (\<lambda>(state, distn).
                     dur_resample_with_truncations C distn
                       (map (\<lambda>s. masked (py_slice (untrunc_slice C s) (durations_censored C s))
                                    (py_slice (untrunc_slice C s) (stateseq_norep C s)) state)
                            (states_list m))
                       (map (\<lambda>s. masked (py_slice (trunc_slice C s) (durations_censored C s))
                                    (py_slice (trunc_slice C s) (stateseq_norep C s)) state)
                            (states_list m)))
                  (enumerate_list (dur_distns m)),
            calls := calls m @ map (\<lambda>(state, distn). ResampleDur state)
                                   (enumerate_list (dur_distns m)) \<rparr>)"

definition HMM_resample_parameters ::
  "('x, 'o, 't, 'i, 'd) collab \<Rightarrow> real option \<Rightarrow> ('x, 'o, 't, 'i, 'd) model \<Rightarrow>
     ('x, 'o, 't, 'i, 'd) model" where
  "HMM_resample_parameters C temp m =
     resample_init_state_distn C temp
       (resample_trans_distn C temp (resample_obs_distns C temp m))"

definition HSMM_resample_parameters ::
  "('x, 'o, 't, 'i, 'd) collab \<Rightarrow> real option \<Rightarrow> ('x, 'o, 't, 'i, 'd) model \<Rightarrow>
     ('x, 'o, 't, 'i, 'd) model" where
  "HSMM_resample_parameters C temp m =
     HMM_resample_parameters C temp (resample_dur_distns C temp m)"

definition resample_parameters ::
  "('x, 'o, 't, 'i, 'd) collab \<Rightarrow> real option \<Rightarrow> ('x, 'o, 't, 'i, 'd) model \<Rightarrow>
     ('x, 'o, 't, 'i, 'd) model" where
  "resample_parameters C temp m =
     (if is_HSMM (kind m) then HSMM_resample_parameters C temp m
      else HMM_resample_parameters C temp m)"

text \<open>
  \<open>resample_states\<close>: each states object resamples itself, in list order, reading
  the parameters of the model, which the loop does not change.
\<close>

definition resample_states ::
  "('x, 'o, 't, 'i, 'd) collab \<Rightarrow> real option \<Rightarrow> ('x, 'o, 't, 'i, 'd) model \<Rightarrow>
     ('x, 'o, 't, 'i, 'd) model" where
  "resample_states C temp m =
     m \<lparr> states_list := map (states_resample C m temp) (states_list m),
         calls := calls m @ map (\<lambda>(i, s). ResampleStates i) (enumerate_list (states_list m)) \<rparr>"

definition resample_model ::
  "('x, 'o, 't, 'i, 'd) collab \<Rightarrow> real option \<Rightarrow> ('x, 'o, 't, 'i, 'd) model \<Rightarrow>
     ('x, 'o, 't, 'i, 'd) model" where
  "resample_model C temp m = resample_states C temp (resample_parameters C temp m)"

section \<open>Parallel resampling\<close>

text \<open>\<open>_get_parallel_data\<close> and the three \<open>_get_parallel_kwargss\<close>.\<close>

definition get_parallel_data :: "'x states \<Rightarrow> 'x list" where
  "get_parallel_data s = data s"

definition get_parallel_kwargss :: "kind \<Rightarrow> 'x states list \<Rightarrow> kwargs list option" where
  "get_parallel_kwargss k ss =
     (if is_HSMM k
      then Some (map (\<lambda>s. no_kwargs
                         \<lparr> kw_trunc := trunc s,
                           kw_right_censoring := Some (right_censoring s),
                           kw_left_censoring := Some (left_censoring s),
                           kw_changepoints :=
                             (if k = HSMMPossibleChangepoints then changepoints s else None) \<rparr>)
                     ss)
      else None)"

text \<open>
  \<open>_state_sampler\<close>, run by a worker on its own copy \<open>gm\<close> of the pushed model with
  the pushed \<open>temp\<close>: attach the data, take the new states object off again and
  return its state sequence.
\<close>

definition state_sampler ::
  "('x, 'o, 't, 'i, 'd) collab \<Rightarrow> ('x, 'o, 't, 'i, 'd) model \<Rightarrow> real option \<Rightarrow>
     'x list \<Rightarrow> kwargs \<Rightarrow> int list outcome" where
  "state_sampler C gm temp dat kw =
     (case add_data C gm dat None
             (kw \<lparr> kw_initialize_from_prior := Some False, kw_temp := temp \<rparr>) of
        (gm1, Raised e) \<Rightarrow> Raised e
      | (gm1, Returned _) \<Rightarrow>
          (case pop (states_list gm1) of
             Raised e \<Rightarrow> Raised e
           | Returned (rest, s) \<Rightarrow> Returned (stateseq s)))"

text \<open>
  Modelled from the spec: \<open>parallel.map_on_each\<close> is not in \<open>models.py\<close>. It runs
  one job per entry of the data list, each job applying the function to its entry
  and its keyword arguments, and returns the results in job order; a job that
  fails makes the whole call fail.
\<close>

fun map_on_each :: "('a \<Rightarrow> kwargs \<Rightarrow> 'b outcome) \<Rightarrow> ('a \<times> kwargs) list \<Rightarrow> 'b list outcome" where
  "map_on_each f [] = Returned []"
| "map_on_each f ((x, kw) # jobs) =
     (case f x kw of
        Raised e \<Rightarrow> Raised e
      | Returned y \<Rightarrow>
          (case map_on_each f jobs of
             Raised e \<Rightarrow> Raised e
           | Returned ys \<Rightarrow> Returned (y # ys)))"

definition jobs_of :: "'a list \<Rightarrow> kwargs list option \<Rightarrow> ('a \<times> kwargs) list" where
  "jobs_of xs kwargss =
     (case kwargss of
        None \<Rightarrow> map (\<lambda>x. (x, no_kwargs)) xs
      | Some kws \<Rightarrow> zip xs kws)"

definition resample_states_parallel ::
  "('x, 'o, 't, 'i, 'd) collab \<Rightarrow> real option \<Rightarrow> ('x, 'o, 't, 'i, 'd) model \<Rightarrow>
     ('x, 'o, 't, 'i, 'd) model \<times> unit outcome" where
  "resample_states_parallel C temp m =
     (let states_to_resample = states_list m;
          m1 = m \<lparr> states_list := [] \<rparr>
      in case map_on_each (state_sampler C m1 temp)
                (jobs_of (map get_parallel_data states_to_resample)
                   (get_parallel_kwargss (kind m1) states_to_resample)) of
           Raised e \<Rightarrow> (m1, Raised e)
         | Returned raw \<Rightarrow>
             (m1 \<lparr> states_list :=
                     map (\<lambda>(s, seq). s \<lparr> stateseq := seq \<rparr>) (zip states_to_resample raw)
                     @ drop (length raw) states_to_resample \<rparr>,
              Returned ()))"

definition resample_model_parallel ::
  "('x, 'o, 't, 'i, 'd) collab \<Rightarrow> real option \<Rightarrow> ('x, 'o, 't, 'i, 'd) model \<Rightarrow>
     ('x, 'o, 't, 'i, 'd) model \<times> unit outcome" where
  "resample_model_parallel C temp m =
     resample_states_parallel C temp (resample_parameters C temp m)"

section \<open>EM and Viterbi EM\<close>

text \<open>Reading a cached table: \<open>t[:,k]\<close> and \<open>t[0]\<close>, with what Python raises.\<close>

definition table_column :: "real list list option \<Rightarrow> nat \<Rightarrow> real list outcome" where
  "table_column t k =
     (case t of
        None \<Rightarrow> Raised TypeError
      | Some rows \<Rightarrow>
          if list_all (\<lambda>row. k < length row) rows
          then Returned (map (\<lambda>row. row ! k) rows)
          else Raised IndexError)"

definition table_first :: "real list list option \<Rightarrow> real list outcome" where
  "table_first t =
     (case t of
        None \<Rightarrow> Raised TypeError
      | Some [] \<Rightarrow> Raised IndexError
      | Some (row # rows) \<Rightarrow> Returned row)"

definition seq_first :: "int list \<Rightarrow> int outcome" where
  "seq_first zs = (case zs of [] \<Rightarrow> Raised IndexError | z # _ \<Rightarrow> Returned z)"

text \<open>A list comprehension whose elements may raise: the first exception wins.\<close>

fun collect :: "'a outcome list \<Rightarrow> 'a list outcome" where
  "collect [] = Returned []"
| "collect (Raised e # rs) = Raised e"
| "collect (Returned x # rs) =
     (case collect rs of Raised e \<Rightarrow> Raised e | Returned xs \<Rightarrow> Returned (x # xs))"

text \<open>
  The loops of the M steps over \<open>enumerate(self.obs_distns)\<close> and
  \<open>enumerate(self.dur_distns)\<close> with expected occupancies as weights. The result
  is the list of posteriors when the loop ends: those before an exception are
  updated, the others are as they were.
\<close>

fun EM_obs_loop ::
  "('x, 'o, 't, 'i, 'd) collab \<Rightarrow> 'x states list \<Rightarrow> (nat \<times> 'o) list \<Rightarrow>
     'o list \<times> unit outcome" where
  "EM_obs_loop C ss [] = ([], Returned ())"
| "EM_obs_loop C ss ((state, distn) # rest) =
     (case collect (map (\<lambda>s. table_column (expectations s) state) ss) of
        Raised e \<Rightarrow> (distn # map snd rest, Raised e)
      | Returned ws \<Rightarrow>
          (case EM_obs_loop C ss rest of
             (ds, r) \<Rightarrow> (obs_max_likelihood C distn (map data ss) (Some ws) # ds, r)))"

fun EM_dur_loop ::
  "('x, 'o, 't, 'i, 'd) collab \<Rightarrow> 'x states list \<Rightarrow> (nat \<times> 'd) list \<Rightarrow>
     'd list \<times> unit outcome" where
  "EM_dur_loop C ss [] = ([], Returned ())"
| "EM_dur_loop C ss ((state, distn) # rest) =
     (case collect (map (\<lambda>s. table_column (expectations s) state) ss) of
        Raised e \<Rightarrow> (distn # map snd rest, Raised e)
      | Returned ws \<Rightarrow>
          (case EM_dur_loop C ss rest of
             (ds, r) \<Rightarrow> (dur_max_likelihood_expected C distn ws # ds, r)))"

definition HMM_EM_step ::
  "('x, 'o, 't, 'i, 'd) collab \<Rightarrow> ('x, 'o, 't, 'i, 'd) model \<Rightarrow>
     ('x, 'o, 't, 'i, 'd) model \<times> unit outcome" where
  "HMM_EM_step C m =
     (if \<not> length (states_list m) > 0 then (m, Raised AssertionError)
      else
        let m1 = clear_caches m;
            m2 = m1 \<lparr> states_list := map (states_E_step C m1) (states_list m1) \<rparr>;
            ss = states_list m2
        in case EM_obs_loop C ss (enumerate_list (obs_distns m2)) of
             (ds, Raised e) \<Rightarrow> (m2 \<lparr> obs_distns := ds \<rparr>, Raised e)
           | (ds, Returned _) \<Rightarrow>
               (let m3 = m2 \<lparr> obs_distns := ds \<rparr>
                in case collect (map (\<lambda>s. table_first (expectations s)) ss) of
                     Raised e \<Rightarrow> (m3, Raised e)
                   | Returned firsts \<Rightarrow>
                       (let m4 = m3 \<lparr> init_state_distn :=
                                        init_max_likelihood_expected C (init_state_distn m3)
                                          firsts \<rparr>
                        in (m4 \<lparr> trans_distn :=
                                   trans_max_likelihood_messages C (trans_distn m4)
                                     (map (\<lambda>s. (alphal s, betal s, aBl s)) ss) \<rparr>,
                            Returned ()))))"

definition HSMM_EM_step ::
  "('x, 'o, 't, 'i, 'd) collab \<Rightarrow> ('x, 'o, 't, 'i, 'd) model \<Rightarrow>
     ('x, 'o, 't, 'i, 'd) model \<times> unit outcome" where
  "HSMM_EM_step C m =
     (case HMM_EM_step C m of
        (m1, Raised e) \<Rightarrow> (m1, Raised e)
      | (m1, Returned _) \<Rightarrow>
          (case EM_dur_loop C (states_list m1) (enumerate_list (dur_distns m1)) of
             (ds, r) \<Rightarrow> (m1 \<lparr> dur_distns := ds \<rparr>, r)))"

text \<open>
  \<open>EM_step\<close> as the class of the instance resolves it: \<open>StickyHMM\<close> and
  \<open>_HSMMIntNegBinBase\<close> override it with a body that only raises.
\<close>

definition EM_step ::
  "('x, 'o, 't, 'i, 'd) collab \<Rightarrow> ('x, 'o, 't, 'i, 'd) model \<Rightarrow>
     ('x, 'o, 't, 'i, 'd) model \<times> unit outcome" where
  "EM_step C m =
     (if is_StickyHMM (kind m) then (m, Raised NotImplementedError)
      else if is_HSMMIntNegBinBase (kind m) then (m, Raised NotImplementedError)
      else if is_HSMM (kind m) then HSMM_EM_step C m
      else HMM_EM_step C m)"

definition HMM_Viterbi_EM_step ::
  "('x, 'o, 't, 'i, 'd) collab \<Rightarrow> ('x, 'o, 't, 'i, 'd) model \<Rightarrow>
     ('x, 'o, 't, 'i, 'd) model \<times> unit outcome" where
  "HMM_Viterbi_EM_step C m =
     (if \<not> length (states_list m) > 0 then (m, Raised AssertionError)
      else
        let m1 = clear_caches m;
            m2 = m1 \<lparr> states_list := map (states_Viterbi C m1) (states_list m1) \<rparr>;
            ss = states_list m2;
            m3 = m2 \<lparr> obs_distns :=
                        map (\<lambda>(state, distn).
                               obs_max_likelihood C distn
                                 (map (\<lambda>s. masked (data s) (stateseq s) state) ss) None)
                            (enumerate_list (obs_distns m2)) \<rparr>
        in case collect (map (\<lambda>s. seq_first (stateseq s)) ss) of
             Raised e \<Rightarrow> (m3, Raised e)
           | Returned firsts \<Rightarrow>
               (let m4 = m3 \<lparr> init_state_distn :=
                                init_max_likelihood C (init_state_distn m3) firsts \<rparr>
                in (m4 \<lparr> trans_distn :=
                           trans_max_likelihood C (trans_distn m4) (map stateseq ss) \<rparr>,
                    Returned ())))"

definition HSMM_Viterbi_EM_step ::
  "('x, 'o, 't, 'i, 'd) collab \<Rightarrow> ('x, 'o, 't, 'i, 'd) model \<Rightarrow>
     ('x, 'o, 't, 'i, 'd) model \<times> unit outcome" where
  "HSMM_Viterbi_EM_step C m =
     (case HMM_Viterbi_EM_step C m of
        (m1, Raised e) \<Rightarrow> (m1, Raised e)
      | (m1, Returned _) \<Rightarrow>
          (m1 \<lparr> dur_distns :=
                  map (\<lambda>(state, distn).
                         dur_max_likelihood C distn
                           (map (\<lambda>s. masked (durations C s) (stateseq_norep C s) state)
                                (states_list m1)))
                      (enumerate_list (dur_distns m1)) \<rparr>,
           Returned ()))"

definition Viterbi_EM_step ::
  "('x, 'o, 't, 'i, 'd) collab \<Rightarrow> ('x, 'o, 't, 'i, 'd) model \<Rightarrow>
     ('x, 'o, 't, 'i, 'd) model \<times> unit outcome" where
  "Viterbi_EM_step C m =
     (if is_HSMM (kind m) then HSMM_Viterbi_EM_step C m else HMM_Viterbi_EM_step C m)"

section \<open>BIC\<close>

text \<open>
  \<open>num_parameters\<close> is a property, so \<open>self.num_parameters\<close> is already the
  integer; \<open>self.num_parameters()\<close> then calls that integer, which Python refuses
  with a \<open>TypeError\<close> for every integer.
\<close>

definition call_int :: "int \<Rightarrow> int outcome" where
  "call_int n = Raised TypeError"

text \<open>
  The generator under \<open>sum\<close> in \<open>BIC\<close>: \<open>self.log_likelihood(s.data).sum()\<close> for
  each attached states object, left to right.
\<close>

fun BIC_sum ::
  "('x, 'o, 't, 'i, 'd) collab \<Rightarrow> ('x, 'o, 't, 'i, 'd) model \<Rightarrow> 'x states list \<Rightarrow>
     ('x, 'o, 't, 'i, 'd) model \<times> real outcome" where
  "BIC_sum C m [] = (m, Returned 0)"
| "BIC_sum C m (s # ss) =
     (case log_likelihood C m (Some (data s)) no_kwargs of
        (m1, Raised e) \<Rightarrow> (m1, Raised e)
      | (m1, Returned l) \<Rightarrow>
          (case BIC_sum C m1 ss of
             (m2, Raised e) \<Rightarrow> (m2, Raised e)
           | (m2, Returned r) \<Rightarrow> (m2, Returned (l + r))))"

definition BIC ::
  "('x, 'o, 't, 'i, 'd) collab \<Rightarrow> ('x, 'o, 't, 'i, 'd) model \<Rightarrow> 'x list option \<Rightarrow>
     ('x, 'o, 't, 'i, 'd) model \<times> real outcome" where
  "BIC C m dat =
     (if \<not> (dat = None \<and> length (states_list m) > 0) then (m, Raised AssertionError)
      else
        (case dat of
           None \<Rightarrow>
             (case BIC_sum C m (states_list m) of
                (m1, Raised e) \<Rightarrow> (m1, Raised e)
              | (m1, Returned l) \<Rightarrow>
                  (case call_int (num_parameters (obs_num_parameters C)
                                    (dur_num_parameters C) m1) of
                     Raised e \<Rightarrow> (m1, Raised e)
                   | Returned n \<Rightarrow>
                       (m1, Returned (- 2 * l + real_of_int n
                              * ln (real (sum_list (map (\<lambda>s. length (data s))
                                                        (states_list m1))))))))
         | Some d \<Rightarrow>
             (case log_likelihood C m (Some d) no_kwargs of
                (m1, Raised e) \<Rightarrow> (m1, Raised e)
              | (m1, Returned l) \<Rightarrow>
                  (case call_int (num_parameters (obs_num_parameters C)
                                    (dur_num_parameters C) m1) of
                     Raised e \<Rightarrow> (m1, Raised e)
                   | Returned n \<Rightarrow>
                       (m1, Returned (- 2 * l + real_of_int n * ln (real (length d))))))))"

section \<open>Predictive likelihoods\<close>

text \<open>
  The tables are arrays of IEEE doubles in the program. The embedding computes in
  the reals, as lists of rows, and follows the program while every value is a
  finite number: where numpy would give \<open>-inf\<close> or \<open>nan\<close> (the logarithm of a
  number that is not positive, \<open>logaddexp.reduce\<close> of an empty row), and for a
  negative matrix power (which numpy computes through the inverse), the embedded
  function yields \<open>Raised NotEmbedded\<close>. Elementwise operations pair the entries
  of their arguments, which is what numpy does on arrays of equal shape.
\<close>

text \<open>Continue with the value of a computation that returned.\<close>

definition then_do :: "'a outcome \<Rightarrow> ('a \<Rightarrow> 'b outcome) \<Rightarrow> 'b outcome" where
  "then_do r f = (case r of Raised e \<Rightarrow> Raised e | Returned x \<Rightarrow> f x)"

text \<open>\<open>numpy.log\<close>, \<open>numpy.logaddexp\<close>, its \<open>reduce\<close> over one row, and the maximum of one row.\<close>

definition np_log :: "real \<Rightarrow> real outcome" where
  "np_log x = (if 0 < x then Returned (ln x) else Raised NotEmbedded)"

definition logaddexp :: "real \<Rightarrow> real \<Rightarrow> real" where
  "logaddexp a b = ln (exp a + exp b)"

definition logaddexp_reduce :: "real list \<Rightarrow> real outcome" where
  "logaddexp_reduce row =
     (case row of [] \<Rightarrow> Raised NotEmbedded | x # xs \<Rightarrow> Returned (foldl logaddexp x xs))"

definition row_max :: "real list \<Rightarrow> real outcome" where
  "row_max row = (case row of [] \<Rightarrow> Raised ValueError | x # xs \<Rightarrow> Returned (foldl max x xs))"

text \<open>\<open>v.dot(A)\<close> for one row \<open>v\<close>, \<open>X.dot(A)\<close>, and \<open>numpy.linalg.matrix_power\<close>.\<close>

definition dot_row :: "real list \<Rightarrow> real list list \<Rightarrow> real list" where
  "dot_row v A =
     map (\<lambda>j. sum_list (map (\<lambda>(x, row). x * row ! j) (zip v A)))
         [0..<(case A of [] \<Rightarrow> 0 | row # _ \<Rightarrow> length row)]"

definition dot :: "real list list \<Rightarrow> real list list \<Rightarrow> real list list" where
  "dot X A = map (\<lambda>v. dot_row v A) X"

definition eye :: "nat \<Rightarrow> real list list" where
  "eye n = map (\<lambda>i. map (\<lambda>j. if i = j then 1 else 0) [0..<n]) [0..<n]"

fun matrix_power_nat :: "real list list \<Rightarrow> nat \<Rightarrow> real list list" where
  "matrix_power_nat A 0 = eye (length A)"
| "matrix_power_nat A (Suc 0) = A"
| "matrix_power_nat A (Suc (Suc n)) = dot (matrix_power_nat A (Suc n)) A"

definition matrix_power :: "real list list \<Rightarrow> int \<Rightarrow> real list list outcome" where
  "matrix_power A n = (if n < 0 then Raised NotEmbedded else Returned (matrix_power_nat A (nat n)))"

text \<open>
  One row of \<open>future_likelihoods\<close>:
  \<open>logaddexp.reduce(log(scaled_alphal[t]) + cmaxes[t] + aBl[k + t])\<close>.
\<close>

definition future_row :: "real list \<Rightarrow> real \<Rightarrow> real list \<Rightarrow> real outcome" where
  "future_row srow c brow =
     then_do (collect (map np_log srow))
       (\<lambda>ls. logaddexp_reduce (map (\<lambda>(l, b). l + c + b) (zip ls brow)))"

text \<open>The loop over \<open>forecast_horizons\<close>, with \<open>prev_k\<close>, \<open>cmaxes\<close> and \<open>scaled_alphal\<close> as they stand.\<close>

fun predictive_loop ::
  "real list list \<Rightarrow> real list list \<Rightarrow> real list list \<Rightarrow> int \<Rightarrow> real list \<Rightarrow> real list list \<Rightarrow>
     int list \<Rightarrow> real list list outcome" where
  "predictive_loop alphas A aBls prev_k cmaxes scaled_alphal [] = Returned []"
| "predictive_loop alphas A aBls prev_k cmaxes scaled_alphal (k # ks) =
     (let step = k - prev_k;
          cmaxes1 = py_slice (None, Some (- step)) cmaxes
      in then_do (matrix_power A step) (\<lambda>P.
           let scaled1 = dot (py_slice (None, Some (- step)) scaled_alphal) P
           in then_do (collect (map (\<lambda>(srow, c, brow). future_row srow c brow)
                                  (zip scaled1 (zip cmaxes1 (py_slice (Some k, None) aBls)))))
                (\<lambda>future_likelihoods.
                 then_do (collect (map logaddexp_reduce (py_slice (None, Some (- k)) alphas)))
                   (\<lambda>past_likelihoods.
                    then_do (predictive_loop alphas A aBls k cmaxes1 scaled1 ks)
                      (\<lambda>outs. Returned (map (\<lambda>(f, p). f - p)
                                           (zip future_likelihoods past_likelihoods) # outs))))))"

text \<open>The two methods from the point where the tables are at hand.\<close>

definition predictive_core ::
  "real list list \<Rightarrow> real list list \<Rightarrow> real list list \<Rightarrow> int list \<Rightarrow> real list list outcome" where
  "predictive_core alphas A aBls forecast_horizons =
     then_do (collect (map row_max alphas))
       (\<lambda>cmaxes.
          predictive_loop alphas A aBls 0 cmaxes
            (map (\<lambda>(row, c). map (\<lambda>a. exp (a - c)) row) (zip alphas cmaxes))
            forecast_horizons)"

definition block_core :: "real list list \<Rightarrow> int list \<Rightarrow> real list list outcome" where
  "block_core alphas blocklens =
     collect (map (\<lambda>k.
        then_do (collect (map logaddexp_reduce (py_slice (Some k, None) alphas)))
          (\<lambda>ahead.
           then_do (collect (map logaddexp_reduce (py_slice (None, Some (- k)) alphas)))
             (\<lambda>behind. Returned (map (\<lambda>(f, p). f - p) (zip ahead behind)))))
        blocklens)"

text \<open>
  \<open>predictive_likelihoods\<close> and \<open>block_predictive_likelihoods\<close>: a states object is
  built on the test data with a placeholder state sequence of zeros and is not
  attached; the forward messages come from it.
\<close>

definition predictive_likelihoods ::
  "('x, 'o, 't, 'i, 'd) collab \<Rightarrow> ('x, 'o, 't, 'i, 'd) model \<Rightarrow> 'x list \<Rightarrow> int list \<Rightarrow>
     kwargs \<Rightarrow> real list list outcome" where
  "predictive_likelihoods C m test_data forecast_horizons kw =
     (case states_new C m test_data (Some (replicate (length test_data) 0)) kw of
        Raised e \<Rightarrow> Raised e
      | Returned s \<Rightarrow>
          predictive_core (messages_forwards C m s) (states_trans_matrix C m s)
            (states_aBl C m s) forecast_horizons)"

definition block_predictive_likelihoods ::
  "('x, 'o, 't, 'i, 'd) collab \<Rightarrow> ('x, 'o, 't, 'i, 'd) model \<Rightarrow> 'x list \<Rightarrow> int list \<Rightarrow>
     kwargs \<Rightarrow> real list list outcome" where
  "block_predictive_likelihoods C m test_data blocklens kw =
     (case states_new C m test_data (Some (replicate (length test_data) 0)) kw of
        Raised e \<Rightarrow> Raised e
      | Returned s \<Rightarrow> block_core (messages_forwards C m s) blocklens)"

text \<open>
  The forward recursion of a hidden Markov model in log space, as a property of
  the three tables: every row of the forward table after the first is the row before it,
  exponentiated, pushed through the transition matrix, taken back to logarithms
  and added to the observation log-likelihoods of its time step; the sums under
  the logarithm are positive.
\<close>

definition forward_step :: "real list list \<Rightarrow> real list \<Rightarrow> real list \<Rightarrow> real list" where
  "forward_step A prev b = map (\<lambda>(s, bj). ln s + bj) (zip (dot_row (map exp prev) A) b)"

definition forward_consistent :: "real list list \<Rightarrow> real list list \<Rightarrow> real list list \<Rightarrow> bool" where
  "forward_consistent A aBls alphas =
     (length aBls = length alphas
      \<and> list_all (\<lambda>row. row \<noteq> []) alphas
      \<and> list_all (\<lambda>(prev, next, b).
                    list_all (\<lambda>s. 0 < s) (dot_row (map exp prev) A)
                    \<and> next = forward_step A prev b)
           (zip alphas (zip (tl alphas) (tl aBls))))"

text \<open>The maximum of a row that is not empty.\<close>

definition rmax :: "real list \<Rightarrow> real" where
  "rmax row = foldl max (hd row) (tl row)"

section \<open>\<open>copy_sample\<close> on a store\<close>

text \<open>
  \<open>copy_sample\<close> is about which objects two models share, which the records above
  cannot say. Here posterior objects, states objects and model objects live in a
  store, at addresses; a model object holds the addresses of its posteriors and
  of its states objects, and a states object the address of its model. A posterior
  object is its current parameter value.
\<close>

type_synonym addr = nat

record 'x states_obj =
  so_data :: "'x list"
  so_stateseq :: "int list"
  so_model :: addr

record model_obj =
  mo_kind :: kind
  mo_num_states :: nat
  mo_obs_distns :: "addr list"
  mo_states_list :: "addr list"
  mo_trans_distn :: addr
  mo_init_state_distn :: addr
  mo_dur_distns :: "addr list"
  mo_left_censoring_init_state_distn :: "addr option"

record ('p, 'x) store =
  posterior_at :: "addr \<Rightarrow> 'p option"
  states_at :: "addr \<Rightarrow> 'x states_obj option"
  model_at :: "addr \<Rightarrow> model_obj option"
  next_addr :: addr

text \<open>
  Modelled from the spec: \<open>copy_sample()\<close> of a posterior is not in \<open>models.py\<close>;
  it gives a new object with the current parameter value of the posterior.
\<close>

definition posterior_copy_sample :: "('p, 'x) store \<Rightarrow> addr \<Rightarrow> ('p, 'x) store \<times> addr" where
  "posterior_copy_sample h r =
     (h \<lparr> posterior_at := (posterior_at h) (next_addr h := posterior_at h r),
          next_addr := Suc (next_addr h) \<rparr>,
      next_addr h)"

text \<open>
  Modelled from the spec: \<open>copy_sample(new)\<close> of a states object is not in
  \<open>models.py\<close>; it gives a new states object with the same data and state
  sequence that refers to the model \<open>new\<close>.
\<close>

definition states_copy_sample ::
  "('p, 'x) store \<Rightarrow> addr \<Rightarrow> addr \<Rightarrow> ('p, 'x) store \<times> addr" where
  "states_copy_sample h c new =
     (h \<lparr> states_at := (states_at h)
             (next_addr h := map_option (\<lambda>s. s \<lparr> so_model := new \<rparr>) (states_at h c)),
          next_addr := Suc (next_addr h) \<rparr>,
      next_addr h)"

text \<open>\<open>copy.copy\<close>: a new model object with the attribute values of the old one.\<close>

definition copy_copy :: "('p, 'x) store \<Rightarrow> addr \<Rightarrow> ('p, 'x) store \<times> addr" where
  "copy_copy h a =
     (h \<lparr> model_at := (model_at h) (next_addr h := model_at h a),
          next_addr := Suc (next_addr h) \<rparr>,
      next_addr h)"

text \<open>A list comprehension that copies each object of a list, left to right.\<close>

fun copy_each ::
  "(('p, 'x) store \<Rightarrow> addr \<Rightarrow> ('p, 'x) store \<times> addr) \<Rightarrow> ('p, 'x) store \<Rightarrow> addr list \<Rightarrow>
     ('p, 'x) store \<times> addr list" where
  "copy_each f h [] = (h, [])"
| "copy_each f h (r # rs) =
     (case f h r of
        (h1, r') \<Rightarrow> (case copy_each f h1 rs of (h2, rs') \<Rightarrow> (h2, r' # rs')))"

text \<open>An assignment to attributes of the model object at \<open>a\<close>.\<close>

definition set_attrs ::
  "('p, 'x) store \<Rightarrow> addr \<Rightarrow> (model_obj \<Rightarrow> model_obj) \<Rightarrow> ('p, 'x) store" where
  "set_attrs h a f = h \<lparr> model_at := (model_at h) (a := map_option f (model_at h a)) \<rparr>"

definition HMM_copy_sample ::
  "('p, 'x) store \<Rightarrow> addr \<Rightarrow> model_obj \<Rightarrow> ('p, 'x) store \<times> addr" where
  "HMM_copy_sample h a self =
     (case copy_copy h a of
        (h1, new) \<Rightarrow>
     (case copy_each posterior_copy_sample h1 (mo_obs_distns self) of
        (h2, os) \<Rightarrow>
     (case posterior_copy_sample (set_attrs h2 new (\<lambda>mo. mo \<lparr> mo_obs_distns := os \<rparr>))
             (mo_trans_distn self) of
        (h3, t) \<Rightarrow>
     (case posterior_copy_sample (set_attrs h3 new (\<lambda>mo. mo \<lparr> mo_trans_distn := t \<rparr>))
             (mo_init_state_distn self) of
        (h4, i) \<Rightarrow>
     (case copy_each (\<lambda>h c. states_copy_sample h c new)
             (set_attrs h4 new (\<lambda>mo. mo \<lparr> mo_init_state_distn := i \<rparr>))
             (mo_states_list self) of
        (h5, ss) \<Rightarrow>
          (set_attrs h5 new (\<lambda>mo. mo \<lparr> mo_states_list := ss \<rparr>), new))))))"

definition HSMM_copy_sample ::
  "('p, 'x) store \<Rightarrow> addr \<Rightarrow> model_obj \<Rightarrow> ('p, 'x) store \<times> addr" where
  "HSMM_copy_sample h a self =
     (case HMM_copy_sample h a self of
        (h1, new) \<Rightarrow>
     (case copy_each posterior_copy_sample h1 (mo_dur_distns self) of
        (h2, ds) \<Rightarrow> (set_attrs h2 new (\<lambda>mo. mo \<lparr> mo_dur_distns := ds \<rparr>), new)))"

definition copy_sample :: "('p, 'x) store \<Rightarrow> addr \<Rightarrow> (('p, 'x) store \<times> addr) option" where
  "copy_sample h a =
     (case model_at h a of
        None \<Rightarrow> None
      | Some self \<Rightarrow>
          Some (if is_HSMM (mo_kind self) then HSMM_copy_sample h a self
                else HMM_copy_sample h a self))"

text \<open>
  A later mutation of a model: a posterior of the model gets a new parameter value
  (resampling), or a states object of the model is overwritten (a new state
  sequence).
\<close>

datatype ('p, 'x) mutation =
    SetPosterior addr 'p
  | SetStates addr "'x states_obj"

fun apply_mutation :: "('p, 'x) store \<Rightarrow> ('p, 'x) mutation \<Rightarrow> ('p, 'x) store" where
  "apply_mutation h (SetPosterior r v) = h \<lparr> posterior_at := (posterior_at h) (r \<mapsto> v) \<rparr>"
| "apply_mutation h (SetStates c s) = h \<lparr> states_at := (states_at h) (c \<mapsto> s) \<rparr>"

definition posterior_refs :: "model_obj \<Rightarrow> addr list" where
  "posterior_refs mo =
     mo_obs_distns mo @ [mo_trans_distn mo, mo_init_state_distn mo] @ mo_dur_distns mo
     @ (case mo_left_censoring_init_state_distn mo of None \<Rightarrow> [] | Some r \<Rightarrow> [r])"

fun mutates :: "model_obj \<Rightarrow> ('p, 'x) mutation \<Rightarrow> bool" where
  "mutates mo (SetPosterior r v) = (r \<in> set (posterior_refs mo))"
| "mutates mo (SetStates c s) = (c \<in> set (mo_states_list mo))"

text \<open>
  A model object in a store: what it refers to exists and was allocated, and a
  model that is not an HSMM has no duration posteriors and no left-censoring
  initial distribution.
\<close>

definition well_formed :: "('p, 'x) store \<Rightarrow> model_obj \<Rightarrow> bool" where
  "well_formed h mo =
     (list_all (\<lambda>r. r < next_addr h \<and> posterior_at h r \<noteq> None) (posterior_refs mo)
      \<and> list_all (\<lambda>c. c < next_addr h \<and> states_at h c \<noteq> None) (mo_states_list mo)
      \<and> (is_HSMM (mo_kind mo)
           \<or> (mo_dur_distns mo = [] \<and> mo_left_censoring_init_state_distn mo = None)))"

text \<open>What a model shows: its parameter values, its state sequences, and the model each of its states objects refers to.\<close>

definition parameter_values ::
  "('p, 'x) store \<Rightarrow> model_obj \<Rightarrow> 'p option list \<times> 'p option \<times> 'p option \<times> 'p option list" where
  "parameter_values h mo =
     (map (posterior_at h) (mo_obs_distns mo), posterior_at h (mo_trans_distn mo),
      posterior_at h (mo_init_state_distn mo), map (posterior_at h) (mo_dur_distns mo))"

definition state_sequences :: "('p, 'x) store \<Rightarrow> model_obj \<Rightarrow> int list option list" where
  "state_sequences h mo =
     map (\<lambda>c. map_option so_stateseq (states_at h c)) (mo_states_list mo)"

definition states_models :: "('p, 'x) store \<Rightarrow> model_obj \<Rightarrow> addr option list" where
  "states_models h mo = map (\<lambda>c. map_option so_model (states_at h c)) (mo_states_list mo)"

text \<open>
  Two notions for the proofs: a copying step that allocates exactly the next
  address and leaves every other cell alone, and a store that agrees with an
  earlier one on everything allocated then.
\<close>

definition fresh_step ::
  "(('p, 'x) store \<Rightarrow> addr \<Rightarrow> ('p, 'x) store \<times> addr) \<Rightarrow> bool" where
  "fresh_step f = (\<forall>h r. snd (f h r) = next_addr h \<and> next_addr (fst (f h r)) = Suc (next_addr h)
      \<and> model_at (fst (f h r)) = model_at h
      \<and> (\<forall>x. x \<noteq> next_addr h \<longrightarrow> posterior_at (fst (f h r)) x = posterior_at h x
              \<and> states_at (fst (f h r)) x = states_at h x))"

definition extends :: "('p, 'x) store \<Rightarrow> ('p, 'x) store \<Rightarrow> bool" where
  "extends h h' =
     (next_addr h \<le> next_addr h'
      \<and> (\<forall>x < next_addr h. posterior_at h' x = posterior_at h x \<and> states_at h' x = states_at h x))"

section \<open>Properties of the state used below\<close>

text \<open>Every cached table of a states object is invalid.\<close>

definition caches_cleared :: "'x states \<Rightarrow> bool" where
  "caches_cleared s =
     (aBl s = None \<and> alphal s = None \<and> betal s = None \<and> expectations s = None)"

text \<open>The initial-state posterior holds no cached derived distribution.\<close>

fun init_cache_cleared :: "'i init_state_distn \<Rightarrow> bool" where
  "init_cache_cleared (SteadyState c) = (c = None)"
| "init_cache_cleared d = True"

text \<open>
  The left-censoring initial distribution of an HSMM holds no cached derived
  distribution: the object it shares with \<open>init_state_distn\<close> holds none, or its
  own steady-state object holds none.
\<close>

definition left_censoring_cache_cleared :: "('x, 'o, 't, 'i, 'd) model \<Rightarrow> bool" where
  "left_censoring_cache_cleared m =
     (case left_censoring_init_state_distn m of
        None \<Rightarrow> True
      | Some SameAsInit \<Rightarrow> init_cache_cleared (init_state_distn m)
      | Some (OwnSteadyState c) \<Rightarrow> c = None)"

section \<open>Concrete collaborators and models\<close>

text \<open>
  A small instance on which the theorems with a hypothesis are applied: the
  posteriors are numbers, the constructor of a states object stores what it is
  given, and every sequence scores 0. The model has one state that it never
  leaves, and every observation has log-likelihood \<open>- 1\<close>, so the forward message
  at time \<open>t\<close> is \<open>- (t + 1)\<close> (\<open>example_forward\<close>). In \<open>failing_collab\<close> the constructor of a
  states object raises, which is how a job of the parallel map fails.
\<close>

fun example_forward :: "'x list \<Rightarrow> real \<Rightarrow> real list list" where
  "example_forward [] acc = []"
| "example_forward (x # xs) acc = [acc - 1] # example_forward xs (acc - 1)"

definition example_collab :: "(nat, nat, nat, nat, nat) collab" where
  "example_collab =
     \<lparr> obs_resample = (\<lambda>p xs. p + 1),
       obs_max_likelihood = (\<lambda>p xs ws. p),
       obs_num_parameters = (\<lambda>p. 2),
       trans_resample = (\<lambda>t zs. t),
       trans_max_likelihood_messages = (\<lambda>t ms. t),
       trans_max_likelihood = (\<lambda>t zs. t),
       init_resample = (\<lambda>d zs. d),
       init_max_likelihood_expected = (\<lambda>d es. d),
       init_max_likelihood = (\<lambda>d zs. d),
       dur_resample_with_truncations = (\<lambda>d xs ys. d + 1),
       dur_max_likelihood_expected = (\<lambda>d ws. d),
       dur_max_likelihood = (\<lambda>d xs. d),
       dur_num_parameters = (\<lambda>d. 1),
       states_new = (\<lambda>m xs seq kw.
          Returned \<lparr> data = xs,
                     stateseq = (case seq of None \<Rightarrow> replicate (length xs) 0 | Some zs \<Rightarrow> zs),
                     trunc = kw_trunc kw,
                     right_censoring = (kw_right_censoring kw = Some True),
                     left_censoring = (kw_left_censoring kw = Some True),
                     changepoints = kw_changepoints kw,
                     aBl = None, alphal = None, betal = None, expectations = None \<rparr>),
       states_resample = (\<lambda>m temp s. s),
       states_E_step = (\<lambda>m s. s),
       states_Viterbi = (\<lambda>m s. s),
       states_log_likelihood = (\<lambda>m s. (s, Returned 0)),
       stateseq_norep = (\<lambda>s. stateseq s),
       durations = (\<lambda>s. map (\<lambda>z. 1) (stateseq s)),
       durations_censored = (\<lambda>s. map (\<lambda>z. 1) (stateseq s)),
       untrunc_slice = (\<lambda>s. (None, None)),
       trunc_slice = (\<lambda>s. (Some 0, Some 0)),
       messages_forwards = (\<lambda>m s. example_forward (data s) 0),
       states_trans_matrix = (\<lambda>m s. [[1]]),
       states_aBl = (\<lambda>m s. map (\<lambda>x. [- 1]) (data s)),
       np_empty = (\<lambda>n. replicate n 0) \<rparr>"

definition failing_collab :: "(nat, nat, nat, nat, nat) collab" where
  "failing_collab =
     example_collab \<lparr> states_new := (\<lambda>m xs seq kw. Raised CollaboratorError) \<rparr>"

definition example_states :: "nat states" where
  "example_states =
     \<lparr> data = [5, 7], stateseq = [0, 0], trunc = None, right_censoring = True,
       left_censoring = False, changepoints = None,
       aBl = Some [[0], [0]], alphal = Some [[0], [0]], betal = None, expectations = None \<rparr>"

definition example_model :: "(nat, nat, nat, nat, nat) model" where
  "example_model =
     \<lparr> kind = HMM, num_states = 1, obs_distns = [0], states_list = [example_states],
       trans_distn = WeakLimitTransitions 1 (Some 1) (Some 1),
       init_state_distn = SteadyState (Some [1]), dur_distns = [],
       left_censoring_init_state_distn = None, calls = [] \<rparr>"

text \<open>
  An HSMM built with an initial-state concentration, so that its initial-state
  posterior is not the steady-state one and its left-censoring initial
  distribution is a steady-state object of its own, here with its stationary
  distribution cached.
\<close>

definition hsmm_args :: "(nat, nat, nat) hmm_args" where
  "hsmm_args =
     \<lparr> arg_obs_distns = [0], arg_trans_distn = None,
       arg_alpha = Some 1, arg_gamma = Some 1,
       arg_alpha_a_0 = None, arg_alpha_b_0 = None,
       arg_gamma_a_0 = None, arg_gamma_b_0 = None,
       arg_init_state_distn = None, arg_init_state_concentration = Some 1 \<rparr>"

definition hsmm_model :: "(nat, nat, nat, nat, nat) model" where
  "hsmm_model =
     \<lparr> kind = HSMM, num_states = 1, obs_distns = [0], states_list = [example_states],
       trans_distn = WeakLimitTransitions 1 (Some 1) (Some 1),
       init_state_distn = InitialState 1 1, dur_distns = [0],
       left_censoring_init_state_distn = Some (OwnSteadyState (Some [1])), calls = [] \<rparr>"

definition empty_model :: "(nat, nat, nat, nat, nat) model" where
  "empty_model = example_model \<lparr> states_list := [] \<rparr>"

definition all_modes_args :: "(nat, nat, nat) hmm_args" where
  "all_modes_args =
     \<lparr> arg_obs_distns = [0], arg_trans_distn = Some (Supplied 0),
       arg_alpha = Some 1, arg_gamma = Some 1,
       arg_alpha_a_0 = Some 1, arg_alpha_b_0 = Some 1,
       arg_gamma_a_0 = Some 1, arg_gamma_b_0 = Some 1,
       arg_init_state_distn = None, arg_init_state_concentration = None \<rparr>"

text \<open>
  A second set of collaborators for a model with two states: the transition
  matrix is uniform, the forward table has two rows, and the second row follows
  from the first by the forward recursion.
\<close>

definition two_state_model :: "(nat, nat, nat, nat, nat) model" where
  "two_state_model = example_model \<lparr> num_states := 2, obs_distns := [0, 0] \<rparr>"

definition two_state_collab :: "(nat, nat, nat, nat, nat) collab" where
  "two_state_collab =
     example_collab
       \<lparr> messages_forwards := (\<lambda>m s. [[0, 0], [- 1, - 2]]),
         states_trans_matrix := (\<lambda>m s. [[1 / 2, 1 / 2], [1 / 2, 1 / 2]]),
         states_aBl := (\<lambda>m s. [[ln 2, ln 2], [- 1, - 2]]) \<rparr>"

text \<open>
  A store with one HSMM at address 5: an observation posterior at 0, the
  transition posterior at 1, the initial-state posterior at 2 (which is also the
  left-censoring initial distribution), a duration posterior at 3 and one states
  object at 4. The mutations resample the observation and the initial-state
  posterior and overwrite the state sequence.
\<close>

definition example_model_obj :: model_obj where
  "example_model_obj =
     \<lparr> mo_kind = HSMM, mo_num_states = 1, mo_obs_distns = [0], mo_states_list = [4],
       mo_trans_distn = 1, mo_init_state_distn = 2, mo_dur_distns = [3],
       mo_left_censoring_init_state_distn = Some 2 \<rparr>"

definition example_store :: "(nat, nat) store" where
  "example_store =
     \<lparr> posterior_at = [0 \<mapsto> 10, 1 \<mapsto> 11, 2 \<mapsto> 12, 3 \<mapsto> 13],
       states_at = [4 \<mapsto> \<lparr> so_data = [5, 7], so_stateseq = [0, 0], so_model = 5 \<rparr>],
       model_at = [5 \<mapsto> example_model_obj],
       next_addr = 6 \<rparr>"

definition example_mutations :: "(nat, nat) mutation list" where
  "example_mutations =
     [SetPosterior 0 20, SetPosterior 2 22,
      SetStates 4 \<lparr> so_data = [5, 7], so_stateseq = [1, 1], so_model = 5 \<rparr>]"

section \<open>Construction\<close>

lemma HMM_init_succeeds_iff:
  "(\<exists>m. (HMM_init k a :: error + ('x, 'o, 't, 'i, 'd) model) = Inr m) \<longleftrightarrow>
     ((given_trans_distn a \<and> \<not> given_alpha_gamma a \<and> \<not> given_hyperpriors a)
      \<or> (\<not> given_trans_distn a \<and> given_alpha_gamma a \<and> \<not> given_hyperpriors a)
      \<or> (\<not> given_trans_distn a \<and> \<not> given_alpha_gamma a \<and> given_hyperpriors a)
      \<or> (given_trans_distn a \<and> given_alpha_gamma a \<and> given_hyperpriors a))"
  by (auto simp: HMM_init_def bxor_def Let_def)

text \<open>
  Claim C2: construction succeeds if and only if exactly one of the three
  configuration modes is supplied. The assertion of \<open>HMM.__init__\<close> chains the three
  tests with \<open>^\<close>, which is also true when all three hold: with a transition
  posterior, \<open>alpha\<close> and \<open>gamma\<close>, and the four hyperpriors all supplied, the
  constructor returns a model, built on the supplied transition posterior.
\<close>

theorem C2_all_three_modes_accepted:
  "given_trans_distn all_modes_args \<and> given_alpha_gamma all_modes_args
   \<and> given_hyperpriors all_modes_args
   \<and> (HMM_init HMM all_modes_args :: error + (nat, nat, nat, nat, nat) model) =
       Inr \<lparr> kind = HMM, num_states = 1, obs_distns = [0], states_list = [],
             trans_distn = Supplied 0, init_state_distn = SteadyState None,
             dur_distns = [], left_censoring_init_state_distn = None, calls = [] \<rparr>"
  by (simp add: HMM_init_def all_modes_args_def given_trans_distn_def given_alpha_gamma_def
      given_hyperpriors_def bxor_def)

section \<open>Parameter count\<close>

text \<open>
  Claim C9: the parameter count is the sum of the observation posteriors' counts
  plus the square of the number of states for an HMM; for an HSMM it is that
  observation sum plus the sum of the duration posteriors' counts plus the square
  of the number of states minus the number of states.
\<close>

theorem C9_num_parameters:
  "num_parameters on dn m =
     (if is_HSMM (kind m)
      then sum_list (map on (obs_distns m)) + sum_list (map dn (dur_distns m))
           + (int (num_states m))\<^sup>2 - int (num_states m)
      else sum_list (map on (obs_distns m)) + (int (num_states m))\<^sup>2)"
  by (simp add: num_parameters_def HMM_num_parameters_def HSMM_num_parameters_def)

section \<open>Scoring a sequence leaves the attached sequences alone\<close>

lemma pop_snoc: "pop (xs @ [x]) = Returned (xs, x)"
  by (simp add: pop_def)

text \<open>
  Claim C3: for every model and every observation sequence passed to
  \<open>log_likelihood\<close>, the list of states objects after the call is the list before
  the call, whether the call returns or raises: the temporary states object is
  appended only once it is built and is popped before it is scored. The model as
  a whole is unchanged as well.
\<close>

theorem C3_log_likelihood_frame:
  "states_list (fst (log_likelihood C m (Some d) kw)) = states_list m
   \<and> fst (log_likelihood C m (Some d) kw) = m"
  by (simp add: log_likelihood_def add_data_def pop_snoc split: outcome.split)

section \<open>Order of a Gibbs sweep\<close>

lemma length_enumerate_list: "length (enumerate_list xs) = length xs"
  by (simp add: enumerate_list_def)

lemma map_fst_call_enumerate:
  "map (\<lambda>(i, x). f i) (enumerate_list xs) = map f [0..<length xs]"
proof -
  have "map (\<lambda>(i, x). f i) (enumerate_list xs) = map f (map fst (enumerate_list xs))"
    by (simp add: case_prod_unfold comp_def)
  also have "map fst (enumerate_list xs) = [0..<length xs]"
    by (simp add: enumerate_list_def)
  finally show ?thesis .
qed

lemma init_clear_caches_idem: "init_clear_caches (init_clear_caches d) = init_clear_caches d"
  by (cases d) simp_all

lemma states_clear_caches_keeps:
  "data (states_clear_caches s) = data s" "stateseq (states_clear_caches s) = stateseq s"
  by (simp_all add: states_clear_caches_def)

lemma states_clear_caches_idem: "states_clear_caches (states_clear_caches s) = states_clear_caches s"
  by (simp add: states_clear_caches_def)

lemma resample_parameters_unfold:
  "resample_parameters C temp m =
     resample_init_state_distn C temp
       (resample_trans_distn C temp
          (resample_obs_distns C temp
             (if is_HSMM (kind m) then resample_dur_distns C temp m else m)))"
  by (simp add: resample_parameters_def HSMM_resample_parameters_def HMM_resample_parameters_def)

lemma resample_parameters_fields:
  "states_list (resample_parameters C temp m) = map states_clear_caches (states_list m)"
  "obs_distns (resample_parameters C temp m) =
     map (\<lambda>(state, distn).
            obs_resample C distn (map (\<lambda>s. masked (data s) (stateseq s) state) (states_list m)))
         (enumerate_list (obs_distns m))"
  "trans_distn (resample_parameters C temp m) =
     trans_resample C (trans_distn m) (map stateseq (states_list m))"
  "init_state_distn (resample_parameters C temp m) =
     init_clear_caches
       (init_resample C (init_clear_caches (init_state_distn m))
          (map (\<lambda>s. py_slice (None, Some 1) (stateseq s)) (states_list m)))"
  "dur_distns (resample_parameters C temp m) =
     (if is_HSMM (kind m)
      then map (\<lambda>(state, distn).
                  dur_resample_with_truncations C distn
                    (map (\<lambda>s. masked (py_slice (untrunc_slice C s) (durations_censored C s))
                                 (py_slice (untrunc_slice C s) (stateseq_norep C s)) state)
                         (states_list m))
                    (map (\<lambda>s. masked (py_slice (trunc_slice C s) (durations_censored C s))
                                 (py_slice (trunc_slice C s) (stateseq_norep C s)) state)
                         (states_list m)))
               (enumerate_list (dur_distns m))
      else dur_distns m)"
  by (simp_all add: resample_parameters_unfold resample_init_state_distn_def
      resample_trans_distn_def resample_obs_distns_def resample_dur_distns_def clear_caches_def
      init_clear_caches_idem states_clear_caches_keeps states_clear_caches_idem comp_def)

text \<open>
  Claim C5: in a full sweep \<open>resample_model\<close> every parameter posterior is
  resampled before any states object is, and on an HSMM the duration posteriors
  come before the observation, transition and initial-state posteriors. The calls
  a sweep adds to the history are, in this order: the duration posteriors (HSMM
  only), the observation posteriors, the transition posterior, the initial-state
  posterior, and then the states objects. Every states object is resampled under
  the model that \<open>resample_parameters\<close> leaves, whose posteriors are the resampled
  ones: each is the collaborator's \<open>resample\<close> of the posterior the sweep started
  with, on the state sequences the sweep started with; the sweep's final
  posteriors are those same ones.
\<close>

theorem C5_resample_order:
  "calls (resample_model C temp m) =
     calls m
     @ (if is_HSMM (kind m) then map ResampleDur [0..<length (dur_distns m)] else [])
     @ map ResampleObs [0..<length (obs_distns m)]
     @ [ResampleTrans, ResampleInit]
     @ map ResampleStates [0..<length (states_list m)]
   \<and> states_list (resample_model C temp m) =
       map (states_resample C (resample_parameters C temp m) temp)
           (states_list (resample_parameters C temp m))
   \<and> states_list (resample_parameters C temp m) = map states_clear_caches (states_list m)
   \<and> obs_distns (resample_model C temp m) = obs_distns (resample_parameters C temp m)
   \<and> trans_distn (resample_model C temp m) = trans_distn (resample_parameters C temp m)
   \<and> init_state_distn (resample_model C temp m) = init_state_distn (resample_parameters C temp m)
   \<and> dur_distns (resample_model C temp m) = dur_distns (resample_parameters C temp m)
   \<and> obs_distns (resample_parameters C temp m) =
       map (\<lambda>(state, distn).
              obs_resample C distn (map (\<lambda>s. masked (data s) (stateseq s) state) (states_list m)))
           (enumerate_list (obs_distns m))
   \<and> trans_distn (resample_parameters C temp m) =
       trans_resample C (trans_distn m) (map stateseq (states_list m))
   \<and> init_state_distn (resample_parameters C temp m) =
       init_clear_caches
         (init_resample C (init_clear_caches (init_state_distn m))
            (map (\<lambda>s. py_slice (None, Some 1) (stateseq s)) (states_list m)))
   \<and> dur_distns (resample_parameters C temp m) =
       (if is_HSMM (kind m)
        then map (\<lambda>(state, distn).
                    dur_resample_with_truncations C distn
                      (map (\<lambda>s. masked (py_slice (untrunc_slice C s) (durations_censored C s))
                                   (py_slice (untrunc_slice C s) (stateseq_norep C s)) state)
                           (states_list m))
                      (map (\<lambda>s. masked (py_slice (trunc_slice C s) (durations_censored C s))
                                   (py_slice (trunc_slice C s) (stateseq_norep C s)) state)
                           (states_list m)))
                 (enumerate_list (dur_distns m))
        else dur_distns m)"
proof -
  have c: "calls (resample_model C temp m) =
     calls m
     @ (if is_HSMM (kind m) then map ResampleDur [0..<length (dur_distns m)] else [])
     @ map ResampleObs [0..<length (obs_distns m)]
     @ [ResampleTrans, ResampleInit]
     @ map ResampleStates [0..<length (states_list m)]"
    by (simp add: resample_model_def resample_states_def resample_parameters_def
      HSMM_resample_parameters_def HMM_resample_parameters_def resample_init_state_distn_def
      resample_trans_distn_def resample_obs_distns_def resample_dur_distns_def
      clear_caches_def map_fst_call_enumerate)
  have s: "states_list (resample_model C temp m) =
       map (states_resample C (resample_parameters C temp m) temp)
           (states_list (resample_parameters C temp m))"
    by (simp add: resample_model_def resample_states_def)
  have p: "obs_distns (resample_model C temp m) = obs_distns (resample_parameters C temp m)"
    "trans_distn (resample_model C temp m) = trans_distn (resample_parameters C temp m)"
    "init_state_distn (resample_model C temp m) = init_state_distn (resample_parameters C temp m)"
    "dur_distns (resample_model C temp m) = dur_distns (resample_parameters C temp m)"
    by (simp_all add: resample_model_def resample_states_def)
  show ?thesis
    by (intro conjI) (rule c s p resample_parameters_fields)+
qed

section \<open>Cache invalidation\<close>

lemma clear_caches_cleared:
  "list_all caches_cleared (states_list (clear_caches m))
   \<and> init_cache_cleared (init_state_distn (clear_caches m))"
proof -
  have "init_cache_cleared (init_clear_caches d)" for d :: "'i init_state_distn"
    by (cases d) simp_all
  then show ?thesis
    by (simp add: clear_caches_def list_all_iff caches_cleared_def states_clear_caches_def)
qed

text \<open>
  When any of the four parameter-resampling operations returns, every attached
  states object has all its cached tables invalidated, and so has the
  initial-state posterior in \<open>init_state_distn\<close> its cache.
\<close>

lemma resample_clears_attached_caches:
  "list_all caches_cleared (states_list (resample_obs_distns C temp m))
   \<and> init_cache_cleared (init_state_distn (resample_obs_distns C temp m))
   \<and> list_all caches_cleared (states_list (resample_trans_distn C temp m))
   \<and> init_cache_cleared (init_state_distn (resample_trans_distn C temp m))
   \<and> list_all caches_cleared (states_list (resample_init_state_distn C temp m))
   \<and> init_cache_cleared (init_state_distn (resample_init_state_distn C temp m))
   \<and> list_all caches_cleared (states_list (resample_dur_distns C temp m))
   \<and> init_cache_cleared (init_state_distn (resample_dur_distns C temp m))"
  unfolding resample_obs_distns_def resample_trans_distn_def resample_init_state_distn_def
    resample_dur_distns_def
  using clear_caches_cleared by blast

text \<open>
  None of the four operations touches \<open>left_censoring_init_state_distn\<close>:
  \<open>_clear_caches\<close> reaches the states objects and \<open>init_state_distn\<close> only.
\<close>

lemma resample_keeps_left_censoring:
  "left_censoring_init_state_distn (resample_obs_distns C temp m)
     = left_censoring_init_state_distn m"
  "left_censoring_init_state_distn (resample_trans_distn C temp m)
     = left_censoring_init_state_distn m"
  "left_censoring_init_state_distn (resample_init_state_distn C temp m)
     = left_censoring_init_state_distn m"
  "left_censoring_init_state_distn (resample_dur_distns C temp m)
     = left_censoring_init_state_distn m"
  by (simp_all add: resample_obs_distns_def resample_trans_distn_def
      resample_init_state_distn_def resample_dur_distns_def clear_caches_def)

text \<open>
  The constructor gives an HSMM a left-censoring steady-state object of its own
  when \<open>init_state_distn\<close> is not a steady-state object.
\<close>

lemma HSMM_init_own_steady_state:
  "(HSMM_init HSMM [0] hsmm_args :: error + (nat, nat, nat, nat, nat) model) =
     Inr (hsmm_model \<lparr> states_list := [],
                       left_censoring_init_state_distn := Some (OwnSteadyState None) \<rparr>)"
  by (simp add: HSMM_init_def HMM_init_def hsmm_args_def hsmm_model_def given_trans_distn_def
      given_alpha_gamma_def given_hyperpriors_def bxor_def)

text \<open>
  Claim C6: after every parameter-resampling operation every cached per-chain
  quantity and any derived initial-state cache is invalidated. On the HSMM whose
  left-censoring initial distribution is a steady-state object of its own, with
  its stationary distribution cached, each of the four operations returns with
  that cache still in place: the derived distribution is the one computed from
  the transition posterior before it was resampled.
\<close>

theorem C6_left_censoring_cache_survives:
  "left_censoring_init_state_distn hsmm_model = Some (OwnSteadyState (Some [1]))
   \<and> left_censoring_init_state_distn (resample_trans_distn example_collab None hsmm_model)
       = Some (OwnSteadyState (Some [1]))
   \<and> \<not> left_censoring_cache_cleared (resample_obs_distns example_collab None hsmm_model)
   \<and> \<not> left_censoring_cache_cleared (resample_trans_distn example_collab None hsmm_model)
   \<and> \<not> left_censoring_cache_cleared (resample_init_state_distn example_collab None hsmm_model)
   \<and> \<not> left_censoring_cache_cleared (resample_dur_distns example_collab None hsmm_model)"
  by (simp add: left_censoring_cache_cleared_def resample_keeps_left_censoring hsmm_model_def)

section \<open>EM steps without data\<close>

text \<open>
  Claim C8: on a model with no attached sequence, the soft EM step and the
  Viterbi EM step both raise, and the model is left exactly as it was (posteriors
  and list of states objects included). The exception is the failed assertion
  that data must be attached, except for \<open>EM_step\<close> on the classes that override it
  to refuse soft EM altogether.
\<close>

theorem C8_EM_needs_data:
  assumes "states_list m = []"
  shows "EM_step C m =
           (m, Raised (if is_StickyHMM (kind m) \<or> is_HSMMIntNegBinBase (kind m)
                       then NotImplementedError else AssertionError))
         \<and> Viterbi_EM_step C m = (m, Raised AssertionError)"
  using assms
  by (simp add: EM_step_def HSMM_EM_step_def HMM_EM_step_def Viterbi_EM_step_def
      HSMM_Viterbi_EM_step_def HMM_Viterbi_EM_step_def)

theorem C8_EM_needs_data_witness:
  "states_list empty_model = []
   \<and> EM_step example_collab empty_model = (empty_model, Raised AssertionError)
   \<and> Viterbi_EM_step example_collab empty_model = (empty_model, Raised AssertionError)"
proof -
  have h: "states_list empty_model = []"
    by (simp add: empty_model_def)
  have k: "kind empty_model = HMM"
    by (simp add: empty_model_def example_model_def)
  show ?thesis
    using h C8_EM_needs_data [OF h, of example_collab] by (simp add: k)
qed

section \<open>BIC\<close>

lemma call_int_raises: "call_int n = Raised TypeError"
  by (simp add: call_int_def)

text \<open>
  Claim C10: on a model with at least one attached sequence, \<open>BIC\<close> with its
  default argument passes its assertion and then never returns a score: it ends
  in the exception of a \<open>log_likelihood\<close> call, if one raises, and otherwise in
  the \<open>TypeError\<close> of calling the integer that the property \<open>num_parameters\<close>
  evaluates to.
\<close>

theorem C10_BIC_never_returns:
  assumes "length (states_list m) > 0"
  shows "BIC C m None =
           (case BIC_sum C m (states_list m) of
              (m1, Raised e) \<Rightarrow> (m1, Raised e)
            | (m1, Returned l) \<Rightarrow> (m1, Raised TypeError))
         \<and> (\<exists>e. snd (BIC C m None) = Raised e)"
  using assms
  by (simp add: BIC_def call_int_raises split: prod.split outcome.split)

theorem C10_BIC_never_returns_witness:
  "length (states_list example_model) > 0
   \<and> BIC example_collab example_model None = (example_model, Raised TypeError)"
proof -
  have h: "length (states_list example_model) > 0"
    by (simp add: example_model_def)
  have s: "BIC_sum example_collab example_model (states_list example_model)
             = (example_model, Returned 0)"
    by (simp add: example_model_def example_states_def example_collab_def log_likelihood_def
        add_data_def add_data_kwargs_def pop_def no_kwargs_def)
  show ?thesis
    using h C10_BIC_never_returns [OF h, of example_collab] by (simp add: s)
qed

section \<open>Parallel resampling\<close>

lemma resample_states_parallel_failure:
  assumes "snd (resample_states_parallel C temp m) = Raised e"
  shows "fst (resample_states_parallel C temp m) = m \<lparr> states_list := [] \<rparr>"
  using assms
  by (simp add: resample_states_parallel_def Let_def split: outcome.splits)

text \<open>
  Claim C1: if a job of the parallel map fails, the sweep aborts with the list of
  states objects the same as before the call. In \<open>resample_states_parallel\<close> the
  list is emptied before the map and put back only after it, so on the model with
  one attached sequence whose job fails, the call raises and leaves the model
  with no attached sequence.
\<close>

theorem C1_failure_leaves_chains_empty:
  "states_list example_model = [example_states]
   \<and> resample_states_parallel failing_collab None example_model =
       (example_model \<lparr> states_list := [] \<rparr>, Raised CollaboratorError)"
  by (simp add: resample_states_parallel_def example_model_def failing_collab_def
      example_collab_def jobs_of_def get_parallel_kwargss_def get_parallel_data_def
      state_sampler_def add_data_def add_data_kwargs_def Let_def)

section \<open>Predictive likelihoods\<close>

lemma collect_map_Returned:
  "(\<And>x. x \<in> set xs \<Longrightarrow> f x = Returned (g x)) \<Longrightarrow> collect (map f xs) = Returned (map g xs)"
  by (induction xs) simp_all

lemma collect_map_cong:
  "(\<And>x. x \<in> set xs \<Longrightarrow> f x = g x) \<Longrightarrow> collect (map f xs) = collect (map g xs)"
proof (induction xs)
  case Nil
  then show ?case by simp
next
  case (Cons a xs)
  then have "f a = g a" "collect (map f xs) = collect (map g xs)"
    by simp_all
  then show ?case by (cases "g a") simp_all
qed

lemma row_max_nonempty: "row \<noteq> [] \<Longrightarrow> row_max row = Returned (rmax row)"
  by (cases row) (simp_all add: row_max_def rmax_def)

lemma py_slice_drop_last: "py_slice (None, Some (- 1)) xs = butlast xs"
proof -
  have "nat (max (int (length xs) + - 1) 0) = length xs - 1"
    by arith
  then show ?thesis
    by (simp add: py_slice_def slice_bound_def butlast_conv_take)
qed

lemma py_slice_from_one: "py_slice (Some 1, None) xs = tl xs"
  by (cases xs) (simp_all add: py_slice_def slice_bound_def)

lemma dot_row_scale:
  "dot_row (map (\<lambda>a. exp (a - c)) v) A = map (\<lambda>s. exp (- c) * s) (dot_row (map exp v) A)"
proof -
  have "sum_list (map (\<lambda>(x, row). x * row ! j) (zip (map (\<lambda>a. exp (a - c)) v) A))
          = exp (- c) * sum_list (map (\<lambda>(x, row). x * row ! j) (zip (map exp v) A))" for j
  proof -
    have "map (\<lambda>(x, row). x * row ! j) (zip (map (\<lambda>a. exp (a - c)) v) A)
            = map (\<lambda>p. exp (- c) * (case p of (x, row) \<Rightarrow> x * row ! j)) (zip (map exp v) A)"
      by (simp add: zip_map1 case_prod_unfold exp_diff exp_minus field_simps)
    then show ?thesis
      by (simp only: sum_list_const_mult)
  qed
  then show ?thesis
    by (simp add: dot_row_def)
qed

lemma np_log_scaled:
  assumes "list_all (\<lambda>s. 0 < s) S"
  shows "collect (map np_log (map (\<lambda>s. exp (- c) * s) S)) = Returned (map (\<lambda>s. ln s - c) S)"
proof -
  have "np_log (exp (- c) * s) = Returned (ln s - c)" if "s \<in> set S" for s
  proof -
    from that assms have pos: "0 < s" by (simp add: list_all_iff)
    then have "ln (exp (- c) * s) = ln s - c"
      by (simp add: ln_mult)
    with pos show ?thesis by (simp add: np_log_def)
  qed
  then have "collect (map (\<lambda>s. np_log (exp (- c) * s)) S) = Returned (map (\<lambda>s. ln s - c) S)"
    by (rule collect_map_Returned)
  then show ?thesis by (simp add: comp_def)
qed

lemma future_row_forward:
  assumes "list_all (\<lambda>s. 0 < s) (dot_row (map exp prev) A)"
  shows "future_row (dot_row (map (\<lambda>a. exp (a - c)) prev) A) c b
           = logaddexp_reduce (forward_step A prev b)"
proof -
  have "map (\<lambda>(l, bj). l + c + bj) (zip (map (\<lambda>s. ln s - c) (dot_row (map exp prev) A)) b)
          = forward_step A prev b"
    by (simp add: forward_step_def zip_map1 case_prod_unfold)
  then show ?thesis
    unfolding future_row_def dot_row_scale np_log_scaled[OF assms] then_do_def
    by (simp only: outcome.case)
qed


lemma zip_triples:
  assumes "length ys = length xs - 1" "length zs = length xs - 1"
  shows "zip (butlast xs) zs = map (\<lambda>(p, n, b). (p, b)) (zip xs (zip ys zs))"
    and "ys = map (\<lambda>(p, n, b). n) (zip xs (zip ys zs))"
proof -
  show "zip (butlast xs) zs = map (\<lambda>(p, n, b). (p, b)) (zip xs (zip ys zs))"
    using assms by (intro nth_equalityI) (auto simp: nth_butlast)
  show "ys = map (\<lambda>(p, n, b). n) (zip xs (zip ys zs))"
    using assms by (intro nth_equalityI) auto
qed

lemma zip_map_map:
  "zip (map f xs) (zip (map g xs) ys) = map (\<lambda>(x, y). (f x, g x, y)) (zip xs ys)"
proof (induction xs arbitrary: ys)
  case Nil
  then show ?case by simp
next
  case (Cons x xs)
  then show ?case by (cases ys) simp_all
qed

lemma scaled_rows:
  "map (\<lambda>(row, c). map (\<lambda>a. exp (a - c)) row) (zip alphas (map rmax alphas))
     = map (\<lambda>row. map (\<lambda>a. exp (a - rmax row)) row) alphas"
  by (induction alphas) simp_all

lemma future_likelihoods_one:
  assumes "forward_consistent A aBls alphas"
  shows "collect (map (\<lambda>(srow, c, brow). future_row srow c brow)
           (zip (dot (butlast (map (\<lambda>row. map (\<lambda>a. exp (a - rmax row)) row) alphas)) A)
                (zip (butlast (map rmax alphas)) (tl aBls))))
         = collect (map logaddexp_reduce (tl alphas))"
proof -
  let ?Z = "zip alphas (zip (tl alphas) (tl aBls))"
  let ?f1 = "\<lambda>row. dot_row (map (\<lambda>a. exp (a - rmax row)) row) A"
  from assms have len: "length aBls = length alphas"
    and fc: "list_all (\<lambda>(prev, next, b).
                    list_all (\<lambda>s. 0 < s) (dot_row (map exp prev) A)
                    \<and> next = forward_step A prev b) ?Z"
    by (simp_all add: forward_consistent_def)
  have l1: "length (tl alphas) = length alphas - 1" "length (tl aBls) = length alphas - 1"
    using len by simp_all
  note zt = zip_triples[OF l1]
  have "zip (dot (butlast (map (\<lambda>row. map (\<lambda>a. exp (a - rmax row)) row) alphas)) A)
            (zip (butlast (map rmax alphas)) (tl aBls))
          = zip (map ?f1 (butlast alphas)) (zip (map rmax (butlast alphas)) (tl aBls))"
    by (simp add: dot_def map_butlast comp_def)
  also have "\<dots> = map (\<lambda>(p, b). (?f1 p, rmax p, b)) (zip (butlast alphas) (tl aBls))"
    by (rule zip_map_map)
  also have "\<dots> = map (\<lambda>(p, n, b). (?f1 p, rmax p, b)) ?Z"
    unfolding zt(1) by (simp add: case_prod_unfold comp_def)
  finally have "collect (map (\<lambda>(srow, c, brow). future_row srow c brow)
           (zip (dot (butlast (map (\<lambda>row. map (\<lambda>a. exp (a - rmax row)) row) alphas)) A)
                (zip (butlast (map rmax alphas)) (tl aBls))))
        = collect (map (\<lambda>(p, n, b). future_row (?f1 p) (rmax p) b) ?Z)"
    by (simp add: case_prod_unfold comp_def)
  also have "\<dots> = collect (map (\<lambda>(p, n, b). logaddexp_reduce n) ?Z)"
  proof (rule collect_map_cong)
    fix x assume x: "x \<in> set ?Z"
    obtain p n b where xe: "x = (p, n, b)" by (cases x)
    from fc x xe have pos: "list_all (\<lambda>s. 0 < s) (dot_row (map exp p) A)"
      and nx: "n = forward_step A p b"
      by (auto simp: list_all_iff)
    show "(case x of (p, n, b) \<Rightarrow> future_row (?f1 p) (rmax p) b)
            = (case x of (p, n, b) \<Rightarrow> logaddexp_reduce n)"
      unfolding xe using future_row_forward[OF pos, of "rmax p" b] nx by simp
  qed
  also have "\<dots> = collect (map logaddexp_reduce (map (\<lambda>(p, n, b). n) ?Z))"
    by (simp add: case_prod_unfold comp_def)
  also have "\<dots> = collect (map logaddexp_reduce (tl alphas))"
    using zt(2) by simp
  finally show ?thesis .
qed


lemma core_single_step:
  assumes "forward_consistent A aBls alphas"
  shows "predictive_core alphas A aBls [1] = block_core alphas [1]"
proof -
  from assms have ne: "list_all (\<lambda>row. row \<noteq> []) alphas"
    by (simp add: forward_consistent_def)
  have cm: "collect (map row_max alphas) = Returned (map rmax alphas)"
    using ne by (intro collect_map_Returned row_max_nonempty) (simp add: list_all_iff)
  have mp: "matrix_power A 1 = Returned A"
    by (simp add: matrix_power_def)
  show ?thesis
    unfolding predictive_core_def block_core_def cm
    by (simp add: then_do_def mp scaled_rows py_slice_drop_last py_slice_from_one
        future_likelihoods_one[OF assms] split: outcome.split)
qed

lemma logaddexp_reduce_rows:
  assumes "list_all (\<lambda>row. row \<noteq> []) rows"
  shows "\<exists>vs. collect (map logaddexp_reduce rows) = Returned vs"
proof -
  have "logaddexp_reduce row = Returned (foldl logaddexp (hd row) (tl row))"
    if "row \<in> set rows" for row
  proof -
    from that assms have "row \<noteq> []" by (simp add: list_all_iff)
    then show ?thesis by (cases row) (simp_all add: logaddexp_reduce_def)
  qed
  then have "collect (map logaddexp_reduce rows)
               = Returned (map (\<lambda>row. foldl logaddexp (hd row) (tl row)) rows)"
    by (rule collect_map_Returned)
  then show ?thesis by blast
qed

lemma block_core_returns:
  assumes "list_all (\<lambda>row. row \<noteq> []) alphas"
  shows "\<exists>v. block_core alphas [1] = Returned [v]"
proof -
  have "list_all (\<lambda>row. row \<noteq> []) (tl alphas)" "list_all (\<lambda>row. row \<noteq> []) (butlast alphas)"
    using assms by (cases alphas; auto simp: list_all_iff dest: in_set_butlastD)+
  then obtain fs ps where "collect (map logaddexp_reduce (tl alphas)) = Returned fs"
    "collect (map logaddexp_reduce (butlast alphas)) = Returned ps"
    using logaddexp_reduce_rows by blast
  then show ?thesis
    by (simp add: block_core_def then_do_def py_slice_drop_last py_slice_from_one)
qed

text \<open>
  Claim C4, amended: for the single horizon 1, in exact real arithmetic and on
  tables that satisfy the forward recursion, \<open>predictive_likelihoods\<close> and
  \<open>block_predictive_likelihoods\<close> both return, and return the same one-element
  list. (For a horizon \<open>k\<close> of 2 or more the first scores the observation at
  offset \<open>k\<close> alone and the second the whole block of \<open>k\<close> observations.)
\<close>

theorem C4_single_step_horizon:
  assumes "states_new C m test_data (Some (replicate (length test_data) 0)) kw = Returned s"
    and "forward_consistent (states_trans_matrix C m s) (states_aBl C m s)
           (messages_forwards C m s)"
  shows "\<exists>v. predictive_likelihoods C m test_data [1] kw = Returned [v]
           \<and> block_predictive_likelihoods C m test_data [1] kw = Returned [v]"
proof -
  from assms(2) have ne: "list_all (\<lambda>row. row \<noteq> []) (messages_forwards C m s)"
    by (simp add: forward_consistent_def)
  from block_core_returns[OF ne] obtain v
    where v: "block_core (messages_forwards C m s) [1] = Returned [v]" by blast
  have "predictive_likelihoods C m test_data [1] kw = Returned [v]"
    using assms(1) core_single_step[OF assms(2)] v by (simp add: predictive_likelihoods_def)
  moreover have "block_predictive_likelihoods C m test_data [1] kw = Returned [v]"
    using assms(1) v by (simp add: block_predictive_likelihoods_def)
  ultimately show ?thesis by blast
qed

text \<open>The amended claim applied to the model with two states.\<close>

lemma two_state_consistent:
  "forward_consistent [[1 / 2, 1 / 2], [1 / 2, 1 / 2]] [[ln 2, ln 2], [- 1, - 2]]
     [[0, 0], [- 1, - 2]]"
  by (simp add: forward_consistent_def forward_step_def dot_row_def)

theorem C4_single_step_horizon_witness:
  "\<exists>v. predictive_likelihoods two_state_collab two_state_model [5, 7] [1] no_kwargs
          = Returned [v]
      \<and> block_predictive_likelihoods two_state_collab two_state_model [5, 7] [1] no_kwargs
          = Returned [v]"
proof -
  let ?s = "\<lparr> data = [5, 7], stateseq = [0, 0], trunc = None,
               right_censoring = False, left_censoring = False, changepoints = None,
               aBl = None, alphal = None, betal = None, expectations = None \<rparr> :: nat states"
  have h1: "states_new two_state_collab two_state_model [5, 7]
              (Some (replicate (length [5, 7 :: nat]) 0)) no_kwargs = Returned ?s"
    by (simp add: two_state_collab_def example_collab_def no_kwargs_def)
  have h2: "forward_consistent (states_trans_matrix two_state_collab two_state_model ?s)
              (states_aBl two_state_collab two_state_model ?s)
              (messages_forwards two_state_collab two_state_model ?s)"
    using two_state_consistent by (simp add: two_state_collab_def)
  show ?thesis
    using C4_single_step_horizon[OF h1 h2] by simp
qed

text \<open>
  Claim C4 as stated fails at horizon 2: on the model with one state and three
  observations of log-likelihood \<open>- 1\<close> each, whose forward table is
  \<open>[[- 1], [- 2], [- 3]]\<close>, the predictive score is \<open>[- 1]\<close> (the third observation
  given the first) and the block score is \<open>[- 2]\<close> (the second and third
  observations given the first).
\<close>

theorem C4_two_step_counterexample:
  "forward_consistent [[1]] [[- 1], [- 1], [- 1]] [[- 1], [- 2], [- 3]]
   \<and> predictive_likelihoods example_collab example_model [5, 7, 9] [2] no_kwargs
       = Returned [[- 1]]
   \<and> block_predictive_likelihoods example_collab example_model [5, 7, 9] [2] no_kwargs
       = Returned [[- 2]]
   \<and> predictive_likelihoods example_collab example_model [5, 7, 9] [2] no_kwargs
       \<noteq> block_predictive_likelihoods example_collab example_model [5, 7, 9] [2] no_kwargs"
proof -
  have fc: "forward_consistent [[1]] [[- 1], [- 1], [- 1]] [[- 1], [- 2], [- 3]]"
    by (simp add: forward_consistent_def forward_step_def dot_row_def)
  have p: "predictive_likelihoods example_collab example_model [5, 7, 9] [2] no_kwargs
             = Returned [[- 1]]"
    by (simp add: predictive_likelihoods_def example_collab_def predictive_core_def
        row_max_def then_do_def py_slice_def slice_bound_def matrix_power_def dot_def
        dot_row_def future_row_def np_log_def logaddexp_reduce_def eval_nat_numeral)
  have b: "block_predictive_likelihoods example_collab example_model [5, 7, 9] [2] no_kwargs
             = Returned [[- 2]]"
    by (simp add: block_predictive_likelihoods_def example_collab_def block_core_def
        then_do_def py_slice_def slice_bound_def logaddexp_reduce_def)
  show ?thesis using fc p b by simp
qed

section \<open>\<open>copy_sample\<close> gives an independent copy\<close>

lemma fresh_posterior: "fresh_step posterior_copy_sample"
  by (simp add: fresh_step_def posterior_copy_sample_def)

lemma fresh_states: "fresh_step (\<lambda>h c. states_copy_sample h c new)"
  by (simp add: fresh_step_def states_copy_sample_def)

lemma fresh_stepD:
  assumes "fresh_step f" "f h r = (h1, r1)"
  shows "r1 = next_addr h" "next_addr h1 = Suc (next_addr h)" "model_at h1 = model_at h"
    "\<And>x. x \<noteq> next_addr h \<Longrightarrow> posterior_at h1 x = posterior_at h x"
    "\<And>x. x \<noteq> next_addr h \<Longrightarrow> states_at h1 x = states_at h x"
  using assms unfolding fresh_step_def by (metis fst_conv snd_conv)+

lemma copy_each_props:
  assumes "fresh_step f" "copy_each f h rs = (h', rs')"
  shows "rs' = [next_addr h..<next_addr h + length rs]"
    and "next_addr h' = next_addr h + length rs"
    and "model_at h' = model_at h"
    and "\<And>x. x < next_addr h \<Longrightarrow> posterior_at h' x = posterior_at h x"
    and "\<And>x. x < next_addr h \<Longrightarrow> states_at h' x = states_at h x"
proof -
  have "rs' = [next_addr h..<next_addr h + length rs]
       \<and> next_addr h' = next_addr h + length rs
       \<and> model_at h' = model_at h
       \<and> (\<forall>x < next_addr h. posterior_at h' x = posterior_at h x \<and> states_at h' x = states_at h x)"
    using assms(2)
  proof (induction rs arbitrary: h h' rs')
    case Nil
    then show ?case by simp
  next
    case (Cons r rs)
    obtain h1 r1 where f: "f h r = (h1, r1)" by (cases "f h r")
    obtain h2 rs2 where c: "copy_each f h1 rs = (h2, rs2)" by (cases "copy_each f h1 rs")
    note p1 = fresh_stepD[OF assms(1) f]
    from Cons.IH[OF c] have p2: "rs2 = [next_addr h1..<next_addr h1 + length rs]"
      "next_addr h2 = next_addr h1 + length rs" "model_at h2 = model_at h1"
      "\<And>x. x < next_addr h1 \<Longrightarrow> posterior_at h2 x = posterior_at h1 x \<and> states_at h2 x = states_at h1 x"
      by auto
    from Cons.prems f c have e: "h' = h2" "rs' = r1 # rs2" by auto
    have u: "[next_addr h..<next_addr h + length (r # rs)]
             = next_addr h # [Suc (next_addr h)..<Suc (next_addr h) + length rs]"
    proof -
      have "[next_addr h..<next_addr h + length (r # rs)]
            = next_addr h # [Suc (next_addr h)..<next_addr h + length (r # rs)]"
        by (rule upt_conv_Cons) simp
      moreover have "next_addr h + length (r # rs) = Suc (next_addr h) + length rs"
        by simp
      ultimately show ?thesis by (simp only:)
    qed
    have a: "rs' = [next_addr h..<next_addr h + length (r # rs)]"
      unfolding u using e p1(1,2) p2(1) by (simp only:)
    have b: "next_addr h' = next_addr h + length (r # rs)"
      using e p1(2) p2(2) by simp
    have c': "model_at h' = model_at h"
      using e p1(3) p2(3) by simp
    have d: "posterior_at h' x = posterior_at h x \<and> states_at h' x = states_at h x"
      if "x < next_addr h" for x
      using that e p1(2) p1(4)[of x] p1(5)[of x] p2(4)[of x] by simp
    show ?case using a b c' d by blast
  qed
  then show "rs' = [next_addr h..<next_addr h + length rs]"
    and "next_addr h' = next_addr h + length rs"
    and "model_at h' = model_at h"
    and "\<And>x. x < next_addr h \<Longrightarrow> posterior_at h' x = posterior_at h x"
    and "\<And>x. x < next_addr h \<Longrightarrow> states_at h' x = states_at h x"
    by blast+
qed


lemma copy_each_posterior_values:
  assumes "copy_each posterior_copy_sample h rs = (h', rs')"
    and "list_all (\<lambda>r. r < next_addr h) rs"
  shows "map (posterior_at h') rs' = map (posterior_at h) rs"
  using assms
proof (induction rs arbitrary: h h' rs')
  case Nil
  then show ?case by simp
next
  case (Cons r rs)
  obtain h1 r1 where f: "posterior_copy_sample h r = (h1, r1)"
    by (cases "posterior_copy_sample h r")
  obtain h2 rs2 where c: "copy_each posterior_copy_sample h1 rs = (h2, rs2)"
    by (cases "copy_each posterior_copy_sample h1 rs")
  from Cons.prems(1) f c have e: "h' = h2" "rs' = r1 # rs2" by auto
  from f have f1: "r1 = next_addr h" "next_addr h1 = Suc (next_addr h)"
    "posterior_at h1 (next_addr h) = posterior_at h r"
    "\<And>x. x \<noteq> next_addr h \<Longrightarrow> posterior_at h1 x = posterior_at h x"
    by (auto simp: posterior_copy_sample_def)
  from Cons.prems(2) have lt: "r < next_addr h" "list_all (\<lambda>r. r < next_addr h) rs"
    by simp_all
  then have lt1: "list_all (\<lambda>r. r < next_addr h1) rs"
    using f1(2) by (simp add: list_all_iff less_Suc_eq)
  have "map (posterior_at h2) rs2 = map (posterior_at h1) rs"
    by (rule Cons.IH[OF c lt1])
  also have "\<dots> = map (posterior_at h) rs"
    using lt(2) f1(4) by (auto simp: list_all_iff)
  finally have tl: "map (posterior_at h2) rs2 = map (posterior_at h) rs" .
  have "posterior_at h2 r1 = posterior_at h1 r1"
    using copy_each_props(4)[OF fresh_posterior c, of r1] f1(1,2) by simp
  then have hd: "posterior_at h2 r1 = posterior_at h r"
    using f1(1,3) by simp
  show ?case using e hd tl by simp
qed

lemma copy_each_states_values:
  assumes "copy_each (\<lambda>h c. states_copy_sample h c new) h cs = (h', cs')"
    and "list_all (\<lambda>c. c < next_addr h) cs"
  shows "map (states_at h') cs'
           = map (\<lambda>c. map_option (\<lambda>s. s \<lparr> so_model := new \<rparr>) (states_at h c)) cs"
  using assms
proof (induction cs arbitrary: h h' cs')
  case Nil
  then show ?case by simp
next
  case (Cons r rs)
  let ?f = "\<lambda>h c. states_copy_sample h c new"
  let ?g = "\<lambda>h c. map_option (\<lambda>s. s \<lparr> so_model := new \<rparr>) (states_at h c)"
  obtain h1 r1 where f: "states_copy_sample h r new = (h1, r1)"
    by (cases "states_copy_sample h r new")
  obtain h2 rs2 where c: "copy_each ?f h1 rs = (h2, rs2)"
    by (cases "copy_each ?f h1 rs")
  from Cons.prems(1) f c have e: "h' = h2" "cs' = r1 # rs2" by auto
  from f have f1: "r1 = next_addr h" "next_addr h1 = Suc (next_addr h)"
    "states_at h1 (next_addr h) = ?g h r"
    "\<And>x. x \<noteq> next_addr h \<Longrightarrow> states_at h1 x = states_at h x"
    by (auto simp: states_copy_sample_def)
  from Cons.prems(2) have lt: "r < next_addr h" "list_all (\<lambda>r. r < next_addr h) rs"
    by simp_all
  then have lt1: "list_all (\<lambda>r. r < next_addr h1) rs"
    using f1(2) by (simp add: list_all_iff less_Suc_eq)
  have "map (states_at h2) rs2 = map (?g h1) rs"
    by (rule Cons.IH[OF c lt1])
  also have "\<dots> = map (?g h) rs"
    using lt(2) f1(4) by (auto simp: list_all_iff)
  finally have tl: "map (states_at h2) rs2 = map (?g h) rs" .
  have "states_at h2 r1 = states_at h1 r1"
    using copy_each_props(5)[OF fresh_states c, of r1] f1(1,2) by simp
  then have hd: "states_at h2 r1 = ?g h r"
    using f1(1,3) by simp
  show ?case using e hd tl by simp
qed


lemma extends_refl: "extends h h"
  by (simp add: extends_def)

lemma extends_trans: "extends h1 h2 \<Longrightarrow> extends h2 h3 \<Longrightarrow> extends h1 h3"
  by (auto simp: extends_def)

lemma extends_set_attrs: "extends h (set_attrs h a f)"
  by (simp add: extends_def set_attrs_def)

lemma extends_copy_copy: "copy_copy h a = (h', n) \<Longrightarrow> extends h h'"
  by (auto simp: extends_def copy_copy_def)

lemma extends_posterior_copy: "posterior_copy_sample h r = (h', n) \<Longrightarrow> extends h h'"
  by (auto simp: extends_def posterior_copy_sample_def)

lemma extends_copy_each:
  assumes "fresh_step f" "copy_each f h rs = (h', rs')"
  shows "extends h h'"
  using copy_each_props(2,4,5)[OF assms] by (simp add: extends_def)

lemma extends_posterior_map:
  "extends h h' \<Longrightarrow> list_all (\<lambda>r. r < next_addr h) rs \<Longrightarrow>
     map (posterior_at h') rs = map (posterior_at h) rs"
  by (auto simp: extends_def list_all_iff)

lemma extends_states_map:
  "extends h h' \<Longrightarrow> list_all (\<lambda>r. r < next_addr h) rs \<Longrightarrow>
     map (\<lambda>c. g (states_at h' c)) rs = map (\<lambda>c. g (states_at h c)) rs"
  by (auto simp: extends_def list_all_iff)

lemma list_all_upt_bounds: "list_all (\<lambda>r. n \<le> r \<and> r < n + k) [n..<n + k]"
  by (simp add: list_all_iff)

lemma set_attrs_simps:
  "next_addr (set_attrs h a f) = next_addr h"
  "posterior_at (set_attrs h a f) = posterior_at h"
  "states_at (set_attrs h a f) = states_at h"
  "model_at (set_attrs h a f) a = map_option f (model_at h a)"
  by (simp_all add: set_attrs_def)

lemma set_attrs_model:
  "model_at h a = Some mo \<Longrightarrow> model_at (set_attrs h a f) a = Some (f mo)"
  by (simp add: set_attrs_def)

lemma HMM_copy_sample_props:
  assumes self: "model_at h a = Some self"
    and obs: "list_all (\<lambda>r. r < next_addr h) (mo_obs_distns self)"
    and tr: "mo_trans_distn self < next_addr h"
    and ini: "mo_init_state_distn self < next_addr h"
    and sts: "list_all (\<lambda>c. c < next_addr h) (mo_states_list self)"
    and cp: "HMM_copy_sample h a self = (h', new)"
  shows "new = next_addr h \<and> extends h h'
    \<and> (\<exists>os t i ss.
          model_at h' new = Some (self \<lparr> mo_obs_distns := os, mo_trans_distn := t,
                                         mo_init_state_distn := i, mo_states_list := ss \<rparr>)
          \<and> list_all (\<lambda>r. next_addr h \<le> r \<and> r < next_addr h') (os @ [t, i] @ ss)
          \<and> map (posterior_at h') os = map (posterior_at h) (mo_obs_distns self)
          \<and> posterior_at h' t = posterior_at h (mo_trans_distn self)
          \<and> posterior_at h' i = posterior_at h (mo_init_state_distn self)
          \<and> map (states_at h') ss
              = map (\<lambda>c. map_option (\<lambda>s. s \<lparr> so_model := new \<rparr>) (states_at h c))
                    (mo_states_list self))"
proof -
  let ?n = "next_addr h"
  obtain h1 n1 where s0: "copy_copy h a = (h1, n1)" by (cases "copy_copy h a")
  obtain h2 os where s1: "copy_each posterior_copy_sample h1 (mo_obs_distns self) = (h2, os)"
    by (cases "copy_each posterior_copy_sample h1 (mo_obs_distns self)")
  let ?h2 = "set_attrs h2 n1 (\<lambda>mo. mo \<lparr> mo_obs_distns := os \<rparr>)"
  obtain h3 t where s2: "posterior_copy_sample ?h2 (mo_trans_distn self) = (h3, t)"
    by (cases "posterior_copy_sample ?h2 (mo_trans_distn self)")
  let ?h3 = "set_attrs h3 n1 (\<lambda>mo. mo \<lparr> mo_trans_distn := t \<rparr>)"
  obtain h4 i where s3: "posterior_copy_sample ?h3 (mo_init_state_distn self) = (h4, i)"
    by (cases "posterior_copy_sample ?h3 (mo_init_state_distn self)")
  let ?h4 = "set_attrs h4 n1 (\<lambda>mo. mo \<lparr> mo_init_state_distn := i \<rparr>)"
  obtain h5 ss where s4: "copy_each (\<lambda>h c. states_copy_sample h c n1) ?h4 (mo_states_list self) = (h5, ss)"
    by (cases "copy_each (\<lambda>h c. states_copy_sample h c n1) ?h4 (mo_states_list self)")
  let ?h5 = "set_attrs h5 n1 (\<lambda>mo. mo \<lparr> mo_states_list := ss \<rparr>)"
  from cp s0 s1 s2 s3 s4 have res: "h' = ?h5" "new = n1"
    by (auto simp: HMM_copy_sample_def)
  \<comment> \<open>step 0\<close>
  from s0 have n1: "n1 = ?n" and nx1: "next_addr h1 = Suc ?n"
    and m1: "model_at h1 n1 = Some self"
    using self by (auto simp: copy_copy_def)
  have e01: "extends h h1" by (rule extends_copy_copy[OF s0])
  \<comment> \<open>step 1\<close>
  note p1 = copy_each_props[OF fresh_posterior s1]
  have e12: "extends h1 h2" by (rule extends_copy_each[OF fresh_posterior s1])
  have obs1: "list_all (\<lambda>r. r < next_addr h1) (mo_obs_distns self)"
    using obs nx1 by (simp add: list_all_iff less_Suc_eq)
  have v1: "map (posterior_at h2) os = map (posterior_at h) (mo_obs_distns self)"
    using copy_each_posterior_values[OF s1 obs1] extends_posterior_map[OF e01 obs] by simp
  have b1: "list_all (\<lambda>r. Suc ?n \<le> r \<and> r < next_addr h2) os"
    using p1(1,2) nx1 list_all_upt_bounds[of "Suc ?n" "length (mo_obs_distns self)"] by simp
  have m1a: "model_at h2 n1 = Some self"
    unfolding p1(3) by (rule m1)
  have m2: "model_at ?h2 n1 = Some (self \<lparr> mo_obs_distns := os \<rparr>)"
    using set_attrs_model[OF m1a] by simp
  \<comment> \<open>step 2\<close>
  have e02: "extends h ?h2"
    by (rule extends_trans[OF extends_trans[OF e01 e12] extends_set_attrs])
  from s2 have t: "t = next_addr h2" and nx3: "next_addr h3 = Suc (next_addr h2)"
    and vt: "posterior_at h3 t = posterior_at h2 (mo_trans_distn self)"
    and m3: "model_at h3 = model_at ?h2"
    by (auto simp: posterior_copy_sample_def set_attrs_simps)
  have e23: "extends ?h2 h3" by (rule extends_posterior_copy[OF s2])
  have le2: "?n \<le> next_addr h2" using e02 by (simp add: extends_def set_attrs_simps)
  have vt': "posterior_at h3 t = posterior_at h (mo_trans_distn self)"
    using vt e02 tr by (simp add: extends_def set_attrs_simps)
  have m3a: "model_at h3 n1 = Some (self \<lparr> mo_obs_distns := os \<rparr>)"
    unfolding m3 by (rule m2)
  have m3': "model_at ?h3 n1 = Some (self \<lparr> mo_obs_distns := os, mo_trans_distn := t \<rparr>)"
    using set_attrs_model[OF m3a] by simp
  \<comment> \<open>step 3\<close>
  have e03: "extends h ?h3"
    by (rule extends_trans[OF extends_trans[OF e02 e23] extends_set_attrs])
  from s3 have i: "i = next_addr h3" and nx4: "next_addr h4 = Suc (next_addr h3)"
    and vi: "posterior_at h4 i = posterior_at h3 (mo_init_state_distn self)"
    and m4: "model_at h4 = model_at ?h3"
    by (auto simp: posterior_copy_sample_def set_attrs_simps)
  have e34: "extends ?h3 h4" by (rule extends_posterior_copy[OF s3])
  have vi': "posterior_at h4 i = posterior_at h (mo_init_state_distn self)"
    using vi e03 ini by (simp add: extends_def set_attrs_simps)
  have m4a: "model_at h4 n1 = Some (self \<lparr> mo_obs_distns := os, mo_trans_distn := t \<rparr>)"
    unfolding m4 by (rule m3')
  have m4': "model_at ?h4 n1 = Some (self \<lparr> mo_obs_distns := os, mo_trans_distn := t,
                                             mo_init_state_distn := i \<rparr>)"
    using set_attrs_model[OF m4a] by simp
  \<comment> \<open>step 4\<close>
  have e04: "extends h ?h4"
    by (rule extends_trans[OF extends_trans[OF e03 e34] extends_set_attrs])
  note p4 = copy_each_props[OF fresh_states s4]
  have e45: "extends ?h4 h5" by (rule extends_copy_each[OF fresh_states s4])
  have sts4: "list_all (\<lambda>c. c < next_addr ?h4) (mo_states_list self)"
    using sts e04 by (auto simp: list_all_iff extends_def)
  have v5: "map (states_at h5) ss
              = map (\<lambda>c. map_option (\<lambda>s. s \<lparr> so_model := n1 \<rparr>) (states_at h c))
                    (mo_states_list self)"
    using copy_each_states_values[OF s4 sts4]
      extends_states_map[OF e04 sts, of "map_option (\<lambda>s. s \<lparr> so_model := n1 \<rparr>)"]
    by simp
  have b5: "list_all (\<lambda>r. next_addr h4 \<le> r \<and> r < next_addr h5) ss"
    using p4(1,2) list_all_upt_bounds[of "next_addr h4" "length (mo_states_list self)"]
    by (simp add: set_attrs_simps)
  have m5a: "model_at h5 n1 = Some (self \<lparr> mo_obs_distns := os, mo_trans_distn := t,
                                     mo_init_state_distn := i \<rparr>)"
    unfolding p4(3) by (rule m4')
  have m5: "model_at ?h5 n1 = Some (self \<lparr> mo_obs_distns := os, mo_trans_distn := t,
                                     mo_init_state_distn := i, mo_states_list := ss \<rparr>)"
    using set_attrs_model[OF m5a] by simp
  \<comment> \<open>values of the earlier copies survive the later steps\<close>
  have e45': "extends h4 ?h5"
    by (rule extends_trans[OF extends_set_attrs extends_trans[OF e45 extends_set_attrs]])
  have e3'5: "extends ?h3 ?h5"
    by (rule extends_trans[OF e34 e45'])
  have e35: "extends h3 ?h5"
    by (rule extends_trans[OF extends_set_attrs e3'5])
  have e25: "extends ?h2 ?h5"
    by (rule extends_trans[OF e23 e35])
  have os_lt: "list_all (\<lambda>r. r < next_addr ?h2) os"
    using b1 by (simp add: list_all_iff set_attrs_simps)
  have vos: "map (posterior_at ?h5) os = map (posterior_at h) (mo_obs_distns self)"
    using extends_posterior_map[OF e25 os_lt] v1 by (simp add: set_attrs_simps)
  have vt5: "posterior_at ?h5 t = posterior_at h (mo_trans_distn self)"
    using e35 t nx3 vt' by (simp add: extends_def)
  have vi5: "posterior_at ?h5 i = posterior_at h (mo_init_state_distn self)"
    using e45' i nx4 vi' by (simp add: extends_def)
  have nx5: "next_addr h4 \<le> next_addr h5"
    using e45 by (simp add: extends_def set_attrs_simps)
  have bounds: "list_all (\<lambda>r. ?n \<le> r \<and> r < next_addr ?h5) (os @ [t, i] @ ss)"
    using b1 b5 t i nx3 nx4 nx5 le2 by (auto simp: list_all_iff set_attrs_simps)
  have e05: "extends h ?h5"
    by (rule extends_trans[OF extends_trans[OF e04 e45] extends_set_attrs])
  have v5': "map (states_at ?h5) ss
              = map (\<lambda>c. map_option (\<lambda>s. s \<lparr> so_model := n1 \<rparr>) (states_at h c))
                    (mo_states_list self)"
    using v5 by (simp only: set_attrs_simps(3))
  show ?thesis
    unfolding res by (intro conjI exI) (rule n1 e05 m5 bounds vos vt5 vi5 v5')+
qed


lemma copy_sample_props:
  assumes self: "model_at h a = Some self"
    and wf: "well_formed h self"
    and cp: "copy_sample h a = Some (h', new)"
  shows "new = next_addr h \<and> extends h h'
    \<and> (\<exists>c. model_at h' new = Some c
          \<and> list_all (\<lambda>r. next_addr h \<le> r)
               (mo_obs_distns c @ [mo_trans_distn c, mo_init_state_distn c]
                @ mo_dur_distns c @ mo_states_list c)
          \<and> parameter_values h' c = parameter_values h self
          \<and> state_sequences h' c = state_sequences h self
          \<and> states_models h' c = map (\<lambda>c. Some new) (mo_states_list self)
          \<and> mo_left_censoring_init_state_distn c = mo_left_censoring_init_state_distn self)"
proof -
  let ?n = "next_addr h"
  from wf have obs: "list_all (\<lambda>r. r < ?n) (mo_obs_distns self)"
    and tr: "mo_trans_distn self < ?n" and ini: "mo_init_state_distn self < ?n"
    and dur: "list_all (\<lambda>r. r < ?n) (mo_dur_distns self)"
    and sts: "list_all (\<lambda>c. c < ?n) (mo_states_list self)"
    and ex: "list_all (\<lambda>c. states_at h c \<noteq> None) (mo_states_list self)"
    and hmm: "\<not> is_HSMM (mo_kind self) \<Longrightarrow> mo_dur_distns self = []"
    by (auto simp: well_formed_def posterior_refs_def list_all_iff)
  obtain h1 n1 where c1: "HMM_copy_sample h a self = (h1, n1)"
    by (cases "HMM_copy_sample h a self")
  from HMM_copy_sample_props[OF self obs tr ini sts c1]
  obtain os t i ss where n1: "n1 = ?n" and e01: "extends h h1"
    and m1: "model_at h1 n1 = Some (self \<lparr> mo_obs_distns := os, mo_trans_distn := t,
                                         mo_init_state_distn := i, mo_states_list := ss \<rparr>)"
    and b1: "list_all (\<lambda>r. ?n \<le> r \<and> r < next_addr h1) (os @ [t, i] @ ss)"
    and vos: "map (posterior_at h1) os = map (posterior_at h) (mo_obs_distns self)"
    and vt: "posterior_at h1 t = posterior_at h (mo_trans_distn self)"
    and vi: "posterior_at h1 i = posterior_at h (mo_init_state_distn self)"
    and vss: "map (states_at h1) ss
              = map (\<lambda>c. map_option (\<lambda>s. s \<lparr> so_model := n1 \<rparr>) (states_at h c))
                    (mo_states_list self)"
    by blast
  let ?c1 = "self \<lparr> mo_obs_distns := os, mo_trans_distn := t,
                  mo_init_state_distn := i, mo_states_list := ss \<rparr>"
  have seqs1: "map (\<lambda>c. map_option so_stateseq (states_at h1 c)) ss
                 = map (\<lambda>c. map_option so_stateseq (states_at h c)) (mo_states_list self)"
  proof -
    have "map (\<lambda>c. map_option so_stateseq (states_at h1 c)) ss
            = map (map_option so_stateseq) (map (states_at h1) ss)"
      by simp
    also have "\<dots> = map (\<lambda>c. map_option so_stateseq (states_at h c)) (mo_states_list self)"
      unfolding vss by (simp add: option.map_comp comp_def)
    finally show ?thesis .
  qed
  have mods1: "map (\<lambda>c. map_option so_model (states_at h1 c)) ss
                 = map (\<lambda>c. Some n1) (mo_states_list self)"
  proof -
    have "map (\<lambda>c. map_option so_model (states_at h1 c)) ss
            = map (map_option so_model) (map (states_at h1) ss)"
      by simp
    also have "\<dots> = map (\<lambda>c. map_option (\<lambda>s. n1) (states_at h c)) (mo_states_list self)"
      unfolding vss by (simp add: option.map_comp comp_def)
    also have "\<dots> = map (\<lambda>c. Some n1) (mo_states_list self)"
      using ex by (auto simp: list_all_iff)
    finally show ?thesis .
  qed
  show ?thesis
  proof (cases "is_HSMM (mo_kind self)")
    case False
    with cp self c1 have res: "h' = h1" "new = n1"
      by (auto simp: copy_sample_def)
    have d: "mo_dur_distns self = []" using hmm[OF False] .
    have bb: "list_all (\<lambda>r. ?n \<le> r)
               (mo_obs_distns ?c1 @ [mo_trans_distn ?c1, mo_init_state_distn ?c1]
                @ mo_dur_distns ?c1 @ mo_states_list ?c1)"
      using b1 d by (auto simp: list_all_iff)
    have pv: "parameter_values h1 ?c1 = parameter_values h self"
      using vos vt vi d by (simp add: parameter_values_def)
    have sq: "state_sequences h1 ?c1 = state_sequences h self"
      using seqs1 by (simp add: state_sequences_def)
    have sm: "states_models h1 ?c1 = map (\<lambda>c. Some n1) (mo_states_list self)"
      using mods1 by (simp add: states_models_def)
    have lc: "mo_left_censoring_init_state_distn ?c1 = mo_left_censoring_init_state_distn self"
      by simp
    show ?thesis
      unfolding res by (intro conjI exI) (rule n1 e01 m1 bb pv sq sm lc)+
  next
    case True
    obtain h2 ds where c2: "copy_each posterior_copy_sample h1 (mo_dur_distns self) = (h2, ds)"
      by (cases "copy_each posterior_copy_sample h1 (mo_dur_distns self)")
    let ?h2 = "set_attrs h2 n1 (\<lambda>mo. mo \<lparr> mo_dur_distns := ds \<rparr>)"
    let ?c2 = "?c1 \<lparr> mo_dur_distns := ds \<rparr>"
    from True cp self c1 c2 have res: "h' = ?h2" "new = n1"
      by (auto simp: copy_sample_def HSMM_copy_sample_def)
    note p2 = copy_each_props[OF fresh_posterior c2]
    have e12: "extends h1 h2" by (rule extends_copy_each[OF fresh_posterior c2])
    have e12': "extends h1 ?h2" by (rule extends_trans[OF e12 extends_set_attrs])
    have e02: "extends h ?h2" by (rule extends_trans[OF e01 e12'])
    have m2a: "model_at h2 n1 = Some ?c1" unfolding p2(3) by (rule m1)
    have m2: "model_at ?h2 n1 = Some ?c2"
      using set_attrs_model[OF m2a] by simp
    have le1: "?n \<le> next_addr h1" using e01 by (simp add: extends_def)
    have dur1: "list_all (\<lambda>r. r < next_addr h1) (mo_dur_distns self)"
      using dur le1 by (auto simp: list_all_iff)
    have vds: "map (posterior_at ?h2) ds = map (posterior_at h) (mo_dur_distns self)"
      using copy_each_posterior_values[OF c2 dur1] extends_posterior_map[OF e01 dur]
      by (simp add: set_attrs_simps)
    have bds: "list_all (\<lambda>r. ?n \<le> r) ds"
      using p2(1) le1 by (auto simp: list_all_iff)
    have lt1: "list_all (\<lambda>r. r < next_addr h1) os" "t < next_addr h1" "i < next_addr h1"
      "list_all (\<lambda>r. r < next_addr h1) ss"
      using b1 by (auto simp: list_all_iff)
    have vos2: "map (posterior_at ?h2) os = map (posterior_at h) (mo_obs_distns self)"
      using extends_posterior_map[OF e12' lt1(1)] vos by simp
    have vt2: "posterior_at ?h2 t = posterior_at h (mo_trans_distn self)"
      using e12' lt1(2) vt by (simp add: extends_def)
    have vi2: "posterior_at ?h2 i = posterior_at h (mo_init_state_distn self)"
      using e12' lt1(3) vi by (simp add: extends_def)
    have bb: "list_all (\<lambda>r. ?n \<le> r)
               (mo_obs_distns ?c2 @ [mo_trans_distn ?c2, mo_init_state_distn ?c2]
                @ mo_dur_distns ?c2 @ mo_states_list ?c2)"
      using b1 bds by (auto simp: list_all_iff)
    have pv: "parameter_values ?h2 ?c2 = parameter_values h self"
      using vos2 vt2 vi2 vds by (simp add: parameter_values_def)
    have sq: "state_sequences ?h2 ?c2 = state_sequences h self"
      using extends_states_map[OF e12' lt1(4), of "map_option so_stateseq"] seqs1
      by (simp add: state_sequences_def)
    have sm: "states_models ?h2 ?c2 = map (\<lambda>c. Some n1) (mo_states_list self)"
      using extends_states_map[OF e12' lt1(4), of "map_option so_model"] mods1
      by (simp add: states_models_def)
    have lc: "mo_left_censoring_init_state_distn ?c2 = mo_left_censoring_init_state_distn self"
      by simp
    show ?thesis
      unfolding res by (intro conjI exI) (rule n1 e02 m2 bb pv sq sm lc)+
  qed
qed

lemma apply_mutations_frame:
  assumes "list_all (mutates self) ws"
    and "list_all (\<lambda>r. r < n) (posterior_refs self)"
    and "list_all (\<lambda>c. c < n) (mo_states_list self)"
  shows "model_at (foldl apply_mutation h ws) = model_at h
       \<and> (\<forall>x. n \<le> x \<longrightarrow> posterior_at (foldl apply_mutation h ws) x = posterior_at h x
                     \<and> states_at (foldl apply_mutation h ws) x = states_at h x)"
  using assms(1)
proof (induction ws arbitrary: h)
  case Nil
  then show ?case by simp
next
  case (Cons w ws)
  from Cons.prems have w: "mutates self w" and ws: "list_all (mutates self) ws"
    by simp_all
  have step: "model_at (apply_mutation h w) = model_at h
       \<and> (\<forall>x. n \<le> x \<longrightarrow> posterior_at (apply_mutation h w) x = posterior_at h x
                     \<and> states_at (apply_mutation h w) x = states_at h x)"
    using w assms(2,3) by (cases w) (auto simp: list_all_iff)
  from Cons.IH[OF ws, of "apply_mutation h w"] step show ?case
    by simp
qed

text \<open>
  After \<open>copy_sample\<close>, the copy is a new model object whose observation,
  transition, initial-state and duration parameter values and whose state
  sequences are those of the original at the time of the copy, each of its states
  objects refers to the copy, and any later mutation of the original (new
  parameter values for its posteriors, its states objects overwritten) leaves
  those values and state sequences of the copy as they were.
\<close>

lemma copy_sample_independent_posteriors:
  assumes "model_at h a = Some self" and "a < next_addr h" and "well_formed h self"
    and "copy_sample h a = Some (h1, new)"
    and "list_all (mutates self) ws"
  shows "new \<noteq> a
    \<and> (\<exists>c. model_at h1 new = Some c
          \<and> parameter_values h1 c = parameter_values h self
          \<and> state_sequences h1 c = state_sequences h self
          \<and> states_models h1 c = map (\<lambda>s. Some new) (mo_states_list self)
          \<and> model_at (foldl apply_mutation h1 ws) new = Some c
          \<and> parameter_values (foldl apply_mutation h1 ws) c = parameter_values h1 c
          \<and> state_sequences (foldl apply_mutation h1 ws) c = state_sequences h1 c)"
proof -
  let ?n = "next_addr h"
  let ?h2 = "foldl apply_mutation h1 ws"
  from copy_sample_props[OF assms(1,3,4)]
  obtain c where new: "new = ?n" and m: "model_at h1 new = Some c"
    and b: "list_all (\<lambda>r. ?n \<le> r)
              (mo_obs_distns c @ [mo_trans_distn c, mo_init_state_distn c]
               @ mo_dur_distns c @ mo_states_list c)"
    and pv: "parameter_values h1 c = parameter_values h self"
    and sq: "state_sequences h1 c = state_sequences h self"
    and sm: "states_models h1 c = map (\<lambda>s. Some new) (mo_states_list self)"
    by blast
  from assms(3) have lt: "list_all (\<lambda>r. r < ?n) (posterior_refs self)"
    "list_all (\<lambda>c. c < ?n) (mo_states_list self)"
    by (auto simp: well_formed_def list_all_iff)
  note fr = apply_mutations_frame[OF assms(5) lt, of h1]
  from fr have fm: "model_at ?h2 = model_at h1"
    and fp: "\<And>x. ?n \<le> x \<Longrightarrow> posterior_at ?h2 x = posterior_at h1 x"
    and fs: "\<And>x. ?n \<le> x \<Longrightarrow> states_at ?h2 x = states_at h1 x"
    by blast+
  have ne: "new \<noteq> a" using new assms(2) by simp
  have m2: "model_at ?h2 new = Some c" using fm m by simp
  have pv2: "parameter_values ?h2 c = parameter_values h1 c"
    using b fp by (auto simp: parameter_values_def list_all_iff)
  have sq2: "state_sequences ?h2 c = state_sequences h1 c"
    using b fs by (auto simp: state_sequences_def list_all_iff)
  show ?thesis
    by (intro conjI exI) (rule ne m pv sq sm m2 pv2 sq2)+
qed


text \<open>
  The attribute \<open>left_censoring_init_state_distn\<close> of an HSMM is none of the
  attributes that \<open>copy_sample\<close> assigns: the copy refers to the same object as
  the original.
\<close>

lemma copy_sample_shares_left_censoring:
  assumes "model_at h a = Some self" and "well_formed h self"
    and "copy_sample h a = Some (h1, new)"
  shows "\<exists>c. model_at h1 new = Some c
           \<and> mo_left_censoring_init_state_distn c = mo_left_censoring_init_state_distn self"
  using copy_sample_props[OF assms] by blast

text \<open>The same on the store with one HSMM.\<close>

lemma copy_sample_independent_posteriors_example:
  "model_at example_store 5 = Some example_model_obj
   \<and> well_formed example_store example_model_obj
   \<and> list_all (mutates example_model_obj) example_mutations
   \<and> (\<exists>h1 new. copy_sample example_store 5 = Some (h1, new)
        \<and> new \<noteq> 5
        \<and> (\<exists>c. model_at h1 new = Some c
              \<and> parameter_values h1 c = parameter_values example_store example_model_obj
              \<and> state_sequences h1 c = state_sequences example_store example_model_obj
              \<and> states_models h1 c = map (\<lambda>s. Some new) (mo_states_list example_model_obj)
              \<and> model_at (foldl apply_mutation h1 example_mutations) new = Some c
              \<and> parameter_values (foldl apply_mutation h1 example_mutations) c
                  = parameter_values h1 c
              \<and> state_sequences (foldl apply_mutation h1 example_mutations) c
                  = state_sequences h1 c))"
proof -
  have a1: "model_at example_store 5 = Some example_model_obj"
    by (simp add: example_store_def)
  have a2: "5 < next_addr example_store"
    by (simp add: example_store_def)
  have a3: "well_formed example_store example_model_obj"
    by (simp add: well_formed_def example_store_def example_model_obj_def posterior_refs_def)
  have a5: "list_all (mutates example_model_obj) example_mutations"
    by (simp add: example_mutations_def example_model_obj_def posterior_refs_def)
  obtain h1 new where a4: "copy_sample example_store 5 = Some (h1, new)"
    using a1 by (cases "if is_HSMM (mo_kind example_model_obj)
                         then HSMM_copy_sample example_store 5 example_model_obj
                         else HMM_copy_sample example_store 5 example_model_obj")
      (simp add: copy_sample_def)
  show ?thesis
    using a1 a3 a5 a4 copy_sample_independent_posteriors[OF a1 a2 a3 a4 a5] by blast
qed

text \<open>
  Claim C7: after \<open>copy_sample\<close> no later mutation of the original is seen through
  the copy. On the store with one HSMM whose left-censoring initial distribution
  is the object in \<open>init_state_distn\<close> (address 2), the copy is a new model object
  that still refers to address 2 as its left-censoring initial distribution, and
  resampling the original's initial-state posterior changes what the copy reads
  there, from 12 to 22.
\<close>

theorem C7_copy_shares_left_censoring:
  "\<exists>h1 new c.
     copy_sample example_store 5 = Some (h1, new)
     \<and> new \<noteq> 5
     \<and> model_at h1 new = Some c
     \<and> mo_left_censoring_init_state_distn c = Some 2
     \<and> mo_init_state_distn example_model_obj = 2
     \<and> list_all (mutates example_model_obj) example_mutations
     \<and> posterior_at h1 2 = Some 12
     \<and> posterior_at (foldl apply_mutation h1 example_mutations) 2 = Some 22"
proof -
  have a1: "model_at example_store 5 = Some example_model_obj"
    by (simp add: example_store_def)
  have a3: "well_formed example_store example_model_obj"
    by (simp add: well_formed_def example_store_def example_model_obj_def posterior_refs_def)
  have a5: "list_all (mutates example_model_obj) example_mutations"
    by (simp add: example_mutations_def example_model_obj_def posterior_refs_def)
  obtain h1 new where a4: "copy_sample example_store 5 = Some (h1, new)"
    using a1 by (cases "if is_HSMM (mo_kind example_model_obj)
                         then HSMM_copy_sample example_store 5 example_model_obj
                         else HMM_copy_sample example_store 5 example_model_obj")
      (simp add: copy_sample_def)
  from copy_sample_props[OF a1 a3 a4]
  obtain c where n: "new = next_addr example_store" and e: "extends example_store h1"
    and m: "model_at h1 new = Some c"
    and lc: "mo_left_censoring_init_state_distn c
               = mo_left_censoring_init_state_distn example_model_obj"
    by blast
  have ne: "new \<noteq> 5" using n by (simp add: example_store_def)
  have lc2: "mo_left_censoring_init_state_distn c = Some 2"
    using lc by (simp add: example_model_obj_def)
  have i: "mo_init_state_distn example_model_obj = 2"
    by (simp add: example_model_obj_def)
  have v: "posterior_at h1 2 = Some 12"
    using e by (simp add: extends_def example_store_def)
  have v2: "posterior_at (foldl apply_mutation h1 example_mutations) 2 = Some 22"
    by (simp add: example_mutations_def)
  show ?thesis
    using a4 ne m lc2 i a5 v v2 by blast
qed

end
